theory Spec2Isabelle
  imports Complex_Main
begin

section \<open>The sound engine of Master Mind (src/app.js, SoundEngine)\<close>

text \<open>
  The engine is a closure over its variables (\<open>bgGain\<close> is never used and is left
  out) and the property \<open>currentMusicType\<close> of the returned object; the Web Audio
  platform and the timer queue of the page are the rest of the state. Everything is
  single threaded, so each method is a function from the state to the new state,
  together with how it completes: normally, or by an exception that leaves it.

  Conventions of the embedding:
  \<^item> an audio node is identified by its position in \<open>nodes\<close>; the two registries hold
    such positions, as the arrays of the source hold the node objects;
  \<^item> the page clock counts milliseconds; \<open>currentTime\<close> is the clock in seconds. Audio
    times are exact reals; the rounding of IEEE doubles is not represented;
  \<^item> gain nodes and their envelopes are not represented: no registry, timer or flag
    depends on them (only the peak volume is kept, with the node);
  \<^item> a context that exists is taken to be running (\<open>ctx.resume()\<close> returns a promise and
    does not throw);
  \<^item> what the platform may refuse is a parameter of every call, the record \<open>faults\<close>:
    the constructor of the context throws, the k-th source node that the running
    method or callback asks for cannot be created, \<open>stop()\<close> on a given node throws.
    A node that could be created is configured, connected and started without failure;
  \<^item> time passes one millisecond at a time: first the nodes whose end time has come
    fire \<open>ended\<close>, then the interval timers that are due run their callbacks.
\<close>

subsection \<open>Data\<close>

datatype wave = Sine | Square | Sawtooth | Triangle | WhiteNoise

text \<open>The three bodies of \<open>onended\<close> in the source, each a \<open>filter\<close> of one registry.\<close>

datatype handler = NoHandler | DropActive "nat list" | DropBg "nat list"

record voice =
  v_wave :: wave
  v_freq :: real
  v_vol :: real
  v_ramp :: "real option"
  v_start :: "real option"
  v_end :: "real option"
  v_onended :: handler
  v_ended :: bool

datatype callback = HeartbeatCb | PlayNoteCb string

record timer =
  t_id :: nat
  t_cb :: callback
  t_period :: nat
  t_due :: nat

text \<open>\<open>this.currentMusicType\<close>: absent until the first start, \<open>null\<close> after a stop.\<close>

datatype music_type = Undefined | Null | Type string

record engine =
  ctx :: bool
  muted :: bool
  activeOscillators :: "nat list"
  bgOscillators :: "nat list"
  bgPlaying :: bool
  heartbeatInterval :: "nat option"
  bgInterval :: "nat option"
  bgStep :: nat
  currentMusicType :: music_type
  nodes :: "voice list"
  timers :: "timer list"
  timer_seq :: nat
  clock :: nat

record faults =
  ctor_throws :: bool
  create_throws :: "nat \<Rightarrow> bool"
  stop_throws :: "nat \<Rightarrow> bool"

datatype 'a completion = Normal 'a | Abrupt

definition init :: engine where
  "init = \<lparr> ctx = False, muted = False, activeOscillators = [], bgOscillators = [],
     bgPlaying = False, heartbeatInterval = None, bgInterval = None, bgStep = 0,
     currentMusicType = Undefined, nodes = [], timers = [], timer_seq = 0, clock = 0 \<rparr>"

definition no_faults :: faults where
  "no_faults = \<lparr> ctor_throws = False, create_throws = (\<lambda>k. False), stop_throws = (\<lambda>i. False) \<rparr>"

subsection \<open>The platform\<close>

definition currentTime :: "engine \<Rightarrow> real" where
  "currentTime s = real (clock s) / 1000"

text \<open>An interval handle is a positive integer; \<open>if (handle)\<close> tests it for truthiness.\<close>

definition truthy :: "nat option \<Rightarrow> bool" where
  "truthy h = (case h of None \<Rightarrow> False | Some n \<Rightarrow> n \<noteq> 0)"

definition setInterval :: "callback \<Rightarrow> nat \<Rightarrow> engine \<Rightarrow> nat \<times> engine" where
  "setInterval cb period s =
     (let h = Suc (timer_seq s)
      in (h, s\<lparr> timers := timers s @ [\<lparr> t_id = h, t_cb = cb, t_period = period,
                                          t_due = clock s + period \<rparr>],
                timer_seq := h \<rparr>))"

definition clearInterval :: "nat \<Rightarrow> engine \<Rightarrow> engine" where
  "clearInterval h s = s\<lparr> timers := filter (\<lambda>t. t_id t \<noteq> h) (timers s) \<rparr>"

text \<open>
  \<open>createOscillator\<close> (or \<open>createBufferSource\<close>) with the wave and the frequency set;
  \<open>v_vol\<close> is the peak of the gain envelope the node is connected to.
\<close>

definition createSource :: "faults \<Rightarrow> nat \<Rightarrow> wave \<Rightarrow> real \<Rightarrow> real \<Rightarrow> engine \<Rightarrow> nat completion \<times> engine" where
  "createSource f k w fr vol s =
     (if create_throws f k then (Abrupt, s)
      else (Normal (length (nodes s)),
            s\<lparr> nodes := nodes s @ [\<lparr> v_wave = w, v_freq = fr, v_vol = vol, v_ramp = None, v_start = None,
                                      v_end = None, v_onended = NoHandler, v_ended = False \<rparr>] \<rparr>))"

definition upd_node :: "nat \<Rightarrow> (voice \<Rightarrow> voice) \<Rightarrow> engine \<Rightarrow> engine" where
  "upd_node i g s = (if i < length (nodes s) then s\<lparr> nodes := (nodes s)[i := g (nodes s ! i)] \<rparr> else s)"

definition start_at :: "nat \<Rightarrow> real \<Rightarrow> engine \<Rightarrow> engine" where
  "start_at i t s = upd_node i (\<lambda>v. v\<lparr> v_start := Some t \<rparr>) s"

definition stop_at :: "nat \<Rightarrow> real \<Rightarrow> engine \<Rightarrow> engine" where
  "stop_at i t s = upd_node i (\<lambda>v. v\<lparr> v_end := Some t \<rparr>) s"

definition ramp_to :: "nat \<Rightarrow> real \<Rightarrow> engine \<Rightarrow> engine" where
  "ramp_to i fr s = upd_node i (\<lambda>v. v\<lparr> v_ramp := Some fr \<rparr>) s"

definition set_onended :: "nat \<Rightarrow> handler \<Rightarrow> engine \<Rightarrow> engine" where
  "set_onended i h s = upd_node i (\<lambda>v. v\<lparr> v_onended := h \<rparr>) s"

text \<open>\<open>try { o.stop(); } catch (e) { }\<close>: a node that has not ended yet ends now.\<close>

definition force_stop :: "faults \<Rightarrow> nat \<Rightarrow> engine \<Rightarrow> engine" where
  "force_stop f i s =
     (if stop_throws f i then s
      else upd_node i (\<lambda>v. if v_ended v then v else v\<lparr> v_end := Some (currentTime s) \<rparr>) s)"

fun force_stop_all :: "faults \<Rightarrow> nat list \<Rightarrow> engine \<Rightarrow> engine" where
  "force_stop_all f [] s = s"
| "force_stop_all f (i # ids) s = force_stop_all f ids (force_stop f i s)"

definition try_catch :: "(engine \<Rightarrow> unit completion \<times> engine) \<Rightarrow> engine \<Rightarrow> unit completion \<times> engine" where
  "try_catch body s = (Normal (), snd (body s))"

definition getCtx :: "faults \<Rightarrow> engine \<Rightarrow> unit completion \<times> engine" where
  "getCtx f s =
     (if ctx s then (Normal (), s)
      else if ctor_throws f then (Abrupt, s)
      else (Normal (), s\<lparr> ctx := True \<rparr>))"

subsection \<open>One-shot effects\<close>

text \<open>\<open>Array.prototype.forEach\<close> with the index; an exception leaves the loop.\<close>

fun forEach :: "(nat \<Rightarrow> 'a \<Rightarrow> engine \<Rightarrow> unit completion \<times> engine) \<Rightarrow> nat \<Rightarrow> 'a list \<Rightarrow> engine
    \<Rightarrow> unit completion \<times> engine" where
  "forEach body i [] s = (Normal (), s)"
| "forEach body i (x # xs) s =
     (case body i x s of
        (Abrupt, s1) \<Rightarrow> (Abrupt, s1)
      | (Normal u, s1) \<Rightarrow> forEach body (Suc i) xs s1)"

definition push_active :: "nat \<Rightarrow> engine \<Rightarrow> engine" where
  "push_active x s = s\<lparr> activeOscillators := activeOscillators s @ [x] \<rparr>"

definition osc_body :: "faults \<Rightarrow> wave \<Rightarrow> real \<Rightarrow> real \<Rightarrow> real \<Rightarrow> real option \<Rightarrow> engine
    \<Rightarrow> unit completion \<times> engine" where
  "osc_body f ty freq duration volume rampFreq s =
     (case getCtx f s of
        (Abrupt, s1) \<Rightarrow> (Abrupt, s1)
      | (Normal u, s1) \<Rightarrow>
          (case createSource f 0 ty freq volume s1 of
             (Abrupt, s2) \<Rightarrow> (Abrupt, s2)
           | (Normal x, s2) \<Rightarrow>
               (let s3 = (case rampFreq of None \<Rightarrow> s2 | Some r \<Rightarrow> ramp_to x r s2);
                    s4 = start_at x (currentTime s3) s3;
                    s5 = stop_at x (currentTime s4 + duration) s4;
                    s6 = push_active x s5
                in (Normal (), set_onended x (DropActive [x]) s6))))"

text \<open>
  \<open>osc(type, freq, duration, volume = 0.1, rampFreq = null)\<close>. \<open>None\<close> is an argument left
  out; \<open>rest\<close> are the arguments a caller passes beyond the fifth, which JavaScript binds
  to no parameter.
\<close>

definition osc :: "faults \<Rightarrow> wave \<Rightarrow> real \<Rightarrow> real \<Rightarrow> real option \<Rightarrow> real option \<Rightarrow> real list \<Rightarrow> engine
    \<Rightarrow> unit completion \<times> engine" where
  "osc f ty freq duration volume rampFreq rest s =
     (if muted s then (Normal (), s)
      else try_catch (osc_body f ty freq duration
                        (case volume of None \<Rightarrow> 0.1 | Some v \<Rightarrow> v) rampFreq) s)"

definition click :: "faults \<Rightarrow> engine \<Rightarrow> unit completion \<times> engine" where
  "click f s = osc f Sine 1000 0.05 (Some 0.08) None [] s"

definition correct_voice :: "faults \<Rightarrow> real \<Rightarrow> nat \<Rightarrow> real \<Rightarrow> engine \<Rightarrow> unit completion \<times> engine" where
  "correct_voice f t i fr s =
     (case createSource f i Sine fr 0.12 s of
        (Abrupt, s1) \<Rightarrow> (Abrupt, s1)
      | (Normal x, s1) \<Rightarrow>
          (let s2 = start_at x (t + real i * 0.08) s1;
               s3 = stop_at x (t + real i * 0.08 + 0.12) s2;
               s4 = push_active x s3
           in (Normal (), set_onended x (DropActive [x]) s4)))"

definition correct_body :: "faults \<Rightarrow> engine \<Rightarrow> unit completion \<times> engine" where
  "correct_body f s =
     (case getCtx f s of
        (Abrupt, s1) \<Rightarrow> (Abrupt, s1)
      | (Normal u, s1) \<Rightarrow> forEach (correct_voice f (currentTime s1)) 0 [523, 784] s1)"

definition correct :: "faults \<Rightarrow> engine \<Rightarrow> unit completion \<times> engine" where
  "correct f s = (if muted s then (Normal (), s) else try_catch (correct_body f) s)"

definition wrong :: "faults \<Rightarrow> engine \<Rightarrow> unit completion \<times> engine" where
  "wrong f s = osc f Sawtooth 200 0.25 (Some 0.1) None [] s"

definition tick :: "faults \<Rightarrow> engine \<Rightarrow> unit completion \<times> engine" where
  "tick f s = osc f Sine 800 0.03 (Some 0.06) None [] s"

definition heartbeat_voice :: "faults \<Rightarrow> real \<Rightarrow> nat \<Rightarrow> real \<Rightarrow> engine \<Rightarrow> unit completion \<times> engine" where
  "heartbeat_voice f t i delay s =
     (case createSource f i Sine 60 0.2 s of
        (Abrupt, s1) \<Rightarrow> (Abrupt, s1)
      | (Normal x, s1) \<Rightarrow>
          (let s2 = start_at x (t + delay) s1;
               s3 = stop_at x (t + delay + 0.15) s2;
               s4 = push_active x s3
           in (Normal (), set_onended x (DropActive [x]) s4)))"

definition heartbeat_body :: "faults \<Rightarrow> engine \<Rightarrow> unit completion \<times> engine" where
  "heartbeat_body f s =
     (case getCtx f s of
        (Abrupt, s1) \<Rightarrow> (Abrupt, s1)
      | (Normal u, s1) \<Rightarrow> forEach (heartbeat_voice f (currentTime s1)) 0 [0, 0.15] s1)"

definition heartbeat :: "faults \<Rightarrow> engine \<Rightarrow> unit completion \<times> engine" where
  "heartbeat f s = (if muted s then (Normal (), s) else try_catch (heartbeat_body f) s)"

definition lightBeep :: "faults \<Rightarrow> engine \<Rightarrow> unit completion \<times> engine" where
  "lightBeep f s = osc f Sine 440 0.1 (Some 0.1) None [] s"

definition goBurst :: "faults \<Rightarrow> engine \<Rightarrow> unit completion \<times> engine" where
  "goBurst f s = osc f Sine 1200 0.3 (Some 0.15) (Some 600) [] s"

definition falseStart :: "faults \<Rightarrow> engine \<Rightarrow> unit completion \<times> engine" where
  "falseStart f s = osc f Square 150 0.5 (Some 0.12) None [] s"

definition fanfare_voice :: "faults \<Rightarrow> real \<Rightarrow> nat \<Rightarrow> real \<Rightarrow> engine \<Rightarrow> unit completion \<times> engine" where
  "fanfare_voice f t i fr s =
     (case createSource f i Sine fr 0.12 s of
        (Abrupt, s1) \<Rightarrow> (Abrupt, s1)
      | (Normal x, s1) \<Rightarrow>
          (let s2 = start_at x (t + real i * 0.12) s1;
               s3 = stop_at x (t + real i * 0.12 + 0.2) s2;
               s4 = push_active x s3
           in (Normal (), set_onended x (DropActive [x]) s4)))"

definition fanfare_body :: "faults \<Rightarrow> engine \<Rightarrow> unit completion \<times> engine" where
  "fanfare_body f s =
     (case getCtx f s of
        (Abrupt, s1) \<Rightarrow> (Abrupt, s1)
      | (Normal u, s1) \<Rightarrow> forEach (fanfare_voice f (currentTime s1)) 0 [523, 659, 784, 1047] s1)"

definition fanfare :: "faults \<Rightarrow> engine \<Rightarrow> unit completion \<times> engine" where
  "fanfare f s = (if muted s then (Normal (), s) else try_catch (fanfare_body f) s)"

subsection \<open>The heartbeat loop\<close>

definition startHeartbeatLoop :: "faults \<Rightarrow> engine \<Rightarrow> unit completion \<times> engine" where
  "startHeartbeatLoop f s =
     (if truthy (heartbeatInterval s) then (Normal (), s)
      else (case heartbeat f s of
              (Abrupt, s1) \<Rightarrow> (Abrupt, s1)
            | (Normal u, s1) \<Rightarrow>
                (case setInterval HeartbeatCb 800 s1 of
                   (h, s2) \<Rightarrow> (Normal (), s2\<lparr> heartbeatInterval := Some h \<rparr>))))"

definition stopHeartbeatLoop :: "engine \<Rightarrow> unit completion \<times> engine" where
  "stopHeartbeatLoop s =
     (case heartbeatInterval s of
        None \<Rightarrow> (Normal (), s)
      | Some h \<Rightarrow>
          (if h \<noteq> 0 then (Normal (), (clearInterval h s)\<lparr> heartbeatInterval := None \<rparr>)
           else (Normal (), s)))"

subsection \<open>The background sequencer\<close>

definition lobbySequence :: "real list" where
  "lobbySequence =
     [130.81, 164.81, 196.00, 261.63,
      98.00, 146.83, 196.00, 246.94,
      110.00, 164.81, 220.00, 261.63,
      87.31, 130.81, 196.00, 220.00]"

definition suspenseSequence :: "real list" where
  "suspenseSequence =
     [55.00, 82.41,
      110.00, 130.81,
      55.00, 73.42,
      110.00, 146.83]"

definition sequence :: "string \<Rightarrow> real list" where
  "sequence ty = (if ty = ''lobby'' then lobbySequence else suspenseSequence)"

definition interval :: "string \<Rightarrow> nat" where
  "interval ty = (if ty = ''lobby'' then 250 else 1500)"

definition push_bg :: "nat list \<Rightarrow> engine \<Rightarrow> engine" where
  "push_bg xs s = s\<lparr> bgOscillators := bgOscillators s @ xs \<rparr>"

text \<open>
  The fundamental \<open>o\<close>, the harmonic \<open>oh\<close> and the noise burst. The burst is started and
  never given a stop time: it ends with its buffer of 20 ms. Only \<open>o\<close> and \<open>oh\<close> are
  pushed.
\<close>

definition playGuitarPluck :: "faults \<Rightarrow> real \<Rightarrow> real \<Rightarrow> real \<Rightarrow> engine \<Rightarrow> unit completion \<times> engine" where
  "playGuitarPluck f fr vol dcy s =
     (case createSource f 0 Triangle fr vol s of
        (Abrupt, s1) \<Rightarrow> (Abrupt, s1)
      | (Normal x, s1) \<Rightarrow>
          (case createSource f 1 Triangle (fr * 2) (vol * 0.4) s1 of
             (Abrupt, s2) \<Rightarrow> (Abrupt, s2)
           | (Normal xh, s2) \<Rightarrow>
               (case createSource f 2 WhiteNoise 0 (vol * 0.2) s2 of
                  (Abrupt, s3) \<Rightarrow> (Abrupt, s3)
                | (Normal noise, s3) \<Rightarrow>
                    (let s4 = stop_at x (currentTime s3 + dcy) (start_at x (currentTime s3) s3);
                         s5 = stop_at xh (currentTime s4 + dcy) (start_at xh (currentTime s4) s4);
                         s6 = stop_at noise (currentTime s5 + 0.02) (start_at noise (currentTime s5) s5);
                         s7 = push_bg [x, xh] s6
                     in (Normal (), set_onended x (DropBg [x, xh]) s7)))))"

text \<open>
  The drone \<open>o\<close> and, when the step is a multiple of four, the shimmer \<open>highO\<close>, which is
  started and stopped at \<open>currentTime + 4.0\<close> but not pushed.
\<close>

definition playSuspense :: "faults \<Rightarrow> real \<Rightarrow> engine \<Rightarrow> unit completion \<times> engine" where
  "playSuspense f fr s =
     (case createSource f 0 Sine fr 0.05 s of
        (Abrupt, s1) \<Rightarrow> (Abrupt, s1)
      | (Normal x, s1) \<Rightarrow>
          (case (if bgStep s1 mod 4 = 0
                 then (case createSource f 1 Sine (fr * 4) 0.015 s1 of
                         (Abrupt, s2) \<Rightarrow> (Abrupt, s2)
                       | (Normal highO, s2) \<Rightarrow>
                           (Normal (), stop_at highO (currentTime s2 + 4.0)
                                         (start_at highO (currentTime s2) s2)))
                 else (Normal (), s1)) of
             (Abrupt, s3) \<Rightarrow> (Abrupt, s3)
           | (Normal u, s3) \<Rightarrow>
               (let s4 = stop_at x (currentTime s3 + 4.0) (start_at x (currentTime s3) s3);
                    s5 = push_bg [x] s4
                in (Normal (), set_onended x (DropBg [x]) s5))))"

text \<open>The closure \<open>playNote\<close> of a start with the given \<open>type\<close>; it has no handler of its own.\<close>

definition playNote :: "faults \<Rightarrow> string \<Rightarrow> engine \<Rightarrow> unit completion \<times> engine" where
  "playNote f ty s =
     (if muted s \<or> \<not> bgPlaying s then (Normal (), s)
      else (let freq = sequence ty ! (bgStep s mod length (sequence ty))
            in (case (if ty = ''lobby'' then playGuitarPluck f freq 0.04 3.0 s
                      else playSuspense f freq s) of
                  (Abrupt, s1) \<Rightarrow> (Abrupt, s1)
                | (Normal u, s1) \<Rightarrow> (Normal (), s1\<lparr> bgStep := bgStep s1 + 1 \<rparr>))))"

definition stopBgMusic :: "faults \<Rightarrow> engine \<Rightarrow> unit completion \<times> engine" where
  "stopBgMusic f s =
     (let s1 = (case bgInterval s of
                  None \<Rightarrow> s
                | Some h \<Rightarrow> (if h \<noteq> 0 then (clearInterval h s)\<lparr> bgInterval := None \<rparr> else s));
          s2 = force_stop_all f (bgOscillators s1) s1
      in (Normal (), s2\<lparr> bgOscillators := [], bgPlaying := False, currentMusicType := Null \<rparr>))"

definition startBgMusic_body :: "faults \<Rightarrow> string \<Rightarrow> engine \<Rightarrow> unit completion \<times> engine" where
  "startBgMusic_body f ty s =
     (case getCtx f s of
        (Abrupt, s1) \<Rightarrow> (Abrupt, s1)
      | (Normal u, s1) \<Rightarrow>
          (case playNote f ty (s1\<lparr> bgPlaying := True, currentMusicType := Type ty, bgStep := 0 \<rparr>) of
             (Abrupt, s2) \<Rightarrow> (Abrupt, s2)
           | (Normal u, s2) \<Rightarrow>
               (case setInterval (PlayNoteCb ty) (interval ty) s2 of
                  (h, s3) \<Rightarrow> (Normal (), s3\<lparr> bgInterval := Some h \<rparr>))))"

text \<open>\<open>startBgMusic(type = 'lobby')\<close>; \<open>None\<close> is the call without an argument.\<close>

definition startBgMusic :: "faults \<Rightarrow> string option \<Rightarrow> engine \<Rightarrow> unit completion \<times> engine" where
  "startBgMusic f arg s =
     (let ty = (case arg of None \<Rightarrow> ''lobby'' | Some t \<Rightarrow> t)
      in if muted s then (Normal (), s)
         else if bgPlaying s \<and> currentMusicType s = Type ty then (Normal (), s)
         else (case (if bgPlaying s then stopBgMusic f s else (Normal (), s)) of
                 (Abrupt, s1) \<Rightarrow> (Abrupt, s1)
               | (Normal u, s1) \<Rightarrow> try_catch (startBgMusic_body f ty) s1))"

subsection \<open>The facade\<close>

definition stopAll :: "faults \<Rightarrow> engine \<Rightarrow> unit completion \<times> engine" where
  "stopAll f s =
     (case stopHeartbeatLoop s of
        (Abrupt, s1) \<Rightarrow> (Abrupt, s1)
      | (Normal u, s1) \<Rightarrow>
          (case stopBgMusic f s1 of
             (Abrupt, s2) \<Rightarrow> (Abrupt, s2)
           | (Normal u, s2) \<Rightarrow>
               (Normal (), (force_stop_all f (activeOscillators s2) s2)\<lparr> activeOscillators := [] \<rparr>)))"

definition toggleMute :: "faults \<Rightarrow> engine \<Rightarrow> bool completion \<times> engine" where
  "toggleMute f s =
     (let s1 = s\<lparr> muted := \<not> muted s \<rparr>
      in (case (if muted s1 then stopAll f s1 else (Normal (), s1)) of
            (Abrupt, s2) \<Rightarrow> (Abrupt, s2)
          | (Normal u, s2) \<Rightarrow> (Normal (muted s2), s2)))"

subsection \<open>The event loop\<close>

fun run_handler :: "handler \<Rightarrow> engine \<Rightarrow> engine" where
  "run_handler NoHandler s = s"
| "run_handler (DropActive xs) s =
     s\<lparr> activeOscillators := filter (\<lambda>x. x \<notin> set xs) (activeOscillators s) \<rparr>"
| "run_handler (DropBg xs) s =
     s\<lparr> bgOscillators := filter (\<lambda>x. x \<notin> set xs) (bgOscillators s) \<rparr>"

text \<open>A node whose end time has come fires \<open>ended\<close> once.\<close>

definition end_voice :: "nat \<Rightarrow> engine \<Rightarrow> engine" where
  "end_voice i s =
     (if i < length (nodes s) \<and> \<not> v_ended (nodes s ! i) \<and>
         (case v_end (nodes s ! i) of None \<Rightarrow> False | Some e \<Rightarrow> e \<le> currentTime s)
      then run_handler (v_onended (nodes s ! i))
             (s\<lparr> nodes := (nodes s)[i := (nodes s ! i)\<lparr> v_ended := True \<rparr>] \<rparr>)
      else s)"

primrec end_voices :: "nat \<Rightarrow> engine \<Rightarrow> engine" where
  "end_voices 0 s = s"
| "end_voices (Suc i) s = end_voices i (end_voice i s)"

fun run_callback :: "faults \<Rightarrow> callback \<Rightarrow> engine \<Rightarrow> unit completion \<times> engine" where
  "run_callback f HeartbeatCb s = heartbeat f s"
| "run_callback f (PlayNoteCb ty) s = playNote f ty s"

text \<open>
  A timer that is due and still installed runs its callback and is due again one period
  later. An exception of the callback is reported by the page and goes no further.
\<close>

definition fire :: "faults \<Rightarrow> timer \<Rightarrow> engine \<Rightarrow> engine" where
  "fire f t s =
     (if t_due t \<le> clock s \<and> t_id t \<in> set (map t_id (timers s))
      then snd (run_callback f (t_cb t)
                 (s\<lparr> timers := map (\<lambda>u. if t_id u = t_id t then u\<lparr> t_due := t_due u + t_period u \<rparr> else u)
                                   (timers s) \<rparr>))
      else s)"

fun fire_timers :: "faults \<Rightarrow> timer list \<Rightarrow> engine \<Rightarrow> engine" where
  "fire_timers f [] s = s"
| "fire_timers f (t # ts) s = fire_timers f ts (fire f t s)"

text \<open>One millisecond passes: nodes that end fire \<open>ended\<close>, then the due timers run.\<close>

definition advance_ms :: "faults \<Rightarrow> engine \<Rightarrow> engine" where
  "advance_ms f s =
     (let s1 = s\<lparr> clock := clock s + 1 \<rparr>;
          s2 = end_voices (length (nodes s1)) s1
      in fire_timers f (timers s2) s2)"

primrec elapse :: "faults \<Rightarrow> nat \<Rightarrow> engine \<Rightarrow> engine" where
  "elapse f 0 s = s"
| "elapse f (Suc n) s = elapse f n (advance_ms f s)"

datatype call =
    Click | Correct | Wrong | Tick | Heartbeat | LightBeep | GoBurst | FalseStart | Fanfare
  | StartHeartbeatLoop | StopHeartbeatLoop | StartBgMusic "string option" | StopBgMusic
  | StopAll | ToggleMute

fun perform :: "faults \<Rightarrow> call \<Rightarrow> engine \<Rightarrow> unit completion \<times> engine" where
  "perform f Click s = click f s"
| "perform f Correct s = correct f s"
| "perform f Wrong s = wrong f s"
| "perform f Tick s = tick f s"
| "perform f Heartbeat s = heartbeat f s"
| "perform f LightBeep s = lightBeep f s"
| "perform f GoBurst s = goBurst f s"
| "perform f FalseStart s = falseStart f s"
| "perform f Fanfare s = fanfare f s"
| "perform f StartHeartbeatLoop s = startHeartbeatLoop f s"
| "perform f StopHeartbeatLoop s = stopHeartbeatLoop s"
| "perform f (StartBgMusic arg) s = startBgMusic f arg s"
| "perform f StopBgMusic s = stopBgMusic f s"
| "perform f StopAll s = stopAll f s"
| "perform f ToggleMute s =
     (case toggleMute f s of (Abrupt, s1) \<Rightarrow> (Abrupt, s1) | (Normal b, s1) \<Rightarrow> (Normal (), s1))"

text \<open>What happens to the engine: a call of the page, or time passing.\<close>

datatype event = Call faults call | Elapse faults nat

fun step :: "engine \<Rightarrow> event \<Rightarrow> engine" where
  "step s (Call f c) = snd (perform f c s)"
| "step s (Elapse f n) = elapse f n s"

definition run :: "event list \<Rightarrow> engine \<Rightarrow> engine" where
  "run es s = foldl step s es"

subsection \<open>Observations used in the properties\<close>

text \<open>The part of the state that no one-shot effect touches.\<close>

definition sess :: "engine \<Rightarrow> bool \<times> nat list \<times> bool \<times> nat option \<times> nat option \<times> nat \<times> music_type \<times> timer list \<times> nat \<times> nat" where
  "sess s = (muted s, bgOscillators s, bgPlaying s, heartbeatInterval s, bgInterval s, bgStep s,
             currentMusicType s, timers s, timer_seq s, clock s)"

text \<open>The wave of every node ever created; it never changes once the node exists.\<close>

definition waves :: "engine \<Rightarrow> wave list" where
  "waves s = map v_wave (nodes s)"

text \<open>
  \<open>grows s s'\<close>: from \<open>s\<close> to \<open>s'\<close> nodes were only added, and the effect registry only
  got new nodes of the effect waves appended.
\<close>

definition grows :: "engine \<Rightarrow> engine \<Rightarrow> bool" where
  "grows s s' \<longleftrightarrow>
     sess s' = sess s \<and> (ctx s \<longrightarrow> ctx s') \<and>
     (\<exists>ws new. waves s' = waves s @ ws \<and> activeOscillators s' = activeOscillators s @ new \<and>
        (\<forall>i\<in>set new. length (waves s) \<le> i \<and> i < length (waves s') \<and> waves s' ! i \<noteq> Triangle))"


text \<open>
  What holds in every state the engine can reach: a muted engine tracks no voice; every
  installed timer is the one a session handle names, and handles are positive; a
  sequencer that is not playing has no timer, one that is playing has a context; the
  effect registry holds existing nodes, none of them a pluck.
\<close>

definition inv_mute :: "engine \<Rightarrow> bool" where
  "inv_mute s \<longleftrightarrow> (muted s \<longrightarrow> activeOscillators s = [] \<and> bgOscillators s = [])"

definition inv_sess :: "engine \<Rightarrow> bool" where
  "inv_sess s \<longleftrightarrow>
     (\<forall>t\<in>set (timers s). Some (t_id t) = heartbeatInterval s \<or> Some (t_id t) = bgInterval s) \<and>
     heartbeatInterval s \<noteq> Some 0 \<and> bgInterval s \<noteq> Some 0 \<and>
     (\<not> bgPlaying s \<longrightarrow> bgInterval s = None) \<and> (bgPlaying s \<longrightarrow> ctx s)"

definition inv_active :: "engine \<Rightarrow> bool" where
  "inv_active s \<longleftrightarrow>
     (\<forall>i\<in>set (activeOscillators s). i < length (waves s) \<and> waves s ! i \<noteq> Triangle)"

definition engine_inv :: "engine \<Rightarrow> bool" where
  "engine_inv s \<longleftrightarrow> inv_mute s \<and> inv_sess s \<and> inv_active s"

text \<open>What the sequencer's \<open>playNote\<close> does not touch.\<close>

definition bg_frame :: "engine \<Rightarrow> bool \<times> bool \<times> nat list \<times> bool \<times> nat option \<times> nat option \<times> music_type \<times> timer list \<times> nat \<times> nat" where
  "bg_frame s = (ctx s, muted s, activeOscillators s, bgPlaying s, heartbeatInterval s, bgInterval s,
                 currentMusicType s, timers s, timer_seq s, clock s)"

text \<open>The list behind \<open>upd_node\<close>: the element at a position that exists is changed.\<close>

definition amend :: "nat \<Rightarrow> ('a \<Rightarrow> 'a) \<Rightarrow> 'a list \<Rightarrow> 'a list" where
  "amend i g xs = (if i < length xs then xs[i := g (xs ! i)] else xs)"

text \<open>
  A heartbeat unit is two thumps, sine nodes at 60 Hz; the units heard so far are counted
  on the nodes the platform was asked for.
\<close>

definition thumps :: "engine \<Rightarrow> nat" where
  "thumps s = length (filter (\<lambda>v. v_wave v = Sine \<and> v_freq v = 60) (nodes s))"

definition heartbeat_units :: "engine \<Rightarrow> nat" where
  "heartbeat_units s = thumps s div 2"

text \<open>An unmuted engine whose only timer is the heartbeat, due within the next period.\<close>

definition hb_loop :: "nat \<Rightarrow> nat \<Rightarrow> engine \<Rightarrow> bool" where
  "hb_loop h due s \<longleftrightarrow>
     \<not> muted s \<and>
     timers s = [\<lparr> t_id = h, t_cb = HeartbeatCb, t_period = 800, t_due = due \<rparr>] \<and>
     clock s < due \<and> due \<le> clock s + 800"

text \<open>
  Two platforms used as test inputs: one without any audio (no context can be made), and
  one that gives a context but cannot create a source node.
\<close>

definition no_audio :: faults where
  "no_audio = \<lparr> ctor_throws = True, create_throws = (\<lambda>k. True), stop_throws = (\<lambda>i. False) \<rparr>"

definition no_synthesis :: faults where
  "no_synthesis = \<lparr> ctor_throws = False, create_throws = (\<lambda>k. True), stop_throws = (\<lambda>i. False) \<rparr>"

section \<open>Properties\<close>

subsection \<open>Frames of the platform primitives\<close>

lemma upd_node_fields [simp]:
  "ctx (upd_node i g s) = ctx s"
  "muted (upd_node i g s) = muted s"
  "activeOscillators (upd_node i g s) = activeOscillators s"
  "bgOscillators (upd_node i g s) = bgOscillators s"
  "bgPlaying (upd_node i g s) = bgPlaying s"
  "heartbeatInterval (upd_node i g s) = heartbeatInterval s"
  "bgInterval (upd_node i g s) = bgInterval s"
  "bgStep (upd_node i g s) = bgStep s"
  "currentMusicType (upd_node i g s) = currentMusicType s"
  "timers (upd_node i g s) = timers s"
  "timer_seq (upd_node i g s) = timer_seq s"
  "clock (upd_node i g s) = clock s"
  "length (nodes (upd_node i g s)) = length (nodes s)"
  by (simp_all add: upd_node_def)

lemma upd_node_sess [simp]: "sess (upd_node i g s) = sess s"
  by (simp add: sess_def)

lemma upd_node_waves:
  assumes "\<And>v. v_wave (g v) = v_wave v"
  shows "waves (upd_node i g s) = waves s"
  by (auto simp: upd_node_def waves_def assms nth_list_update intro!: nth_equalityI)

lemma start_at_fields [simp]:
  "ctx (start_at i t s) = ctx s"
  "muted (start_at i t s) = muted s"
  "activeOscillators (start_at i t s) = activeOscillators s"
  "bgOscillators (start_at i t s) = bgOscillators s"
  "bgPlaying (start_at i t s) = bgPlaying s"
  "heartbeatInterval (start_at i t s) = heartbeatInterval s"
  "bgInterval (start_at i t s) = bgInterval s"
  "bgStep (start_at i t s) = bgStep s"
  "currentMusicType (start_at i t s) = currentMusicType s"
  "timers (start_at i t s) = timers s"
  "timer_seq (start_at i t s) = timer_seq s"
  "clock (start_at i t s) = clock s"
  "length (nodes (start_at i t s)) = length (nodes s)"
  "sess (start_at i t s) = sess s" "waves (start_at i t s) = waves s"
  by (simp_all add: start_at_def upd_node_waves)

lemma stop_at_fields [simp]:
  "ctx (stop_at i t s) = ctx s"
  "muted (stop_at i t s) = muted s"
  "activeOscillators (stop_at i t s) = activeOscillators s"
  "bgOscillators (stop_at i t s) = bgOscillators s"
  "bgPlaying (stop_at i t s) = bgPlaying s"
  "heartbeatInterval (stop_at i t s) = heartbeatInterval s"
  "bgInterval (stop_at i t s) = bgInterval s"
  "bgStep (stop_at i t s) = bgStep s"
  "currentMusicType (stop_at i t s) = currentMusicType s"
  "timers (stop_at i t s) = timers s"
  "timer_seq (stop_at i t s) = timer_seq s"
  "clock (stop_at i t s) = clock s"
  "length (nodes (stop_at i t s)) = length (nodes s)"
  "sess (stop_at i t s) = sess s" "waves (stop_at i t s) = waves s"
  by (simp_all add: stop_at_def upd_node_waves)

lemma ramp_to_fields [simp]:
  "ctx (ramp_to i r s) = ctx s"
  "muted (ramp_to i r s) = muted s"
  "activeOscillators (ramp_to i r s) = activeOscillators s"
  "bgOscillators (ramp_to i r s) = bgOscillators s"
  "bgPlaying (ramp_to i r s) = bgPlaying s"
  "heartbeatInterval (ramp_to i r s) = heartbeatInterval s"
  "bgInterval (ramp_to i r s) = bgInterval s"
  "bgStep (ramp_to i r s) = bgStep s"
  "currentMusicType (ramp_to i r s) = currentMusicType s"
  "timers (ramp_to i r s) = timers s"
  "timer_seq (ramp_to i r s) = timer_seq s"
  "clock (ramp_to i r s) = clock s"
  "length (nodes (ramp_to i r s)) = length (nodes s)"
  "sess (ramp_to i r s) = sess s" "waves (ramp_to i r s) = waves s"
  by (simp_all add: ramp_to_def upd_node_waves)

lemma set_onended_fields [simp]:
  "ctx (set_onended i h s) = ctx s"
  "muted (set_onended i h s) = muted s"
  "activeOscillators (set_onended i h s) = activeOscillators s"
  "bgOscillators (set_onended i h s) = bgOscillators s"
  "bgPlaying (set_onended i h s) = bgPlaying s"
  "heartbeatInterval (set_onended i h s) = heartbeatInterval s"
  "bgInterval (set_onended i h s) = bgInterval s"
  "bgStep (set_onended i h s) = bgStep s"
  "currentMusicType (set_onended i h s) = currentMusicType s"
  "timers (set_onended i h s) = timers s"
  "timer_seq (set_onended i h s) = timer_seq s"
  "clock (set_onended i h s) = clock s"
  "length (nodes (set_onended i h s)) = length (nodes s)"
  "sess (set_onended i h s) = sess s" "waves (set_onended i h s) = waves s"
  by (simp_all add: set_onended_def upd_node_waves)

lemma push_active_frame [simp]:
  "sess (push_active x s) = sess s" "ctx (push_active x s) = ctx s"
  "activeOscillators (push_active x s) = activeOscillators s @ [x]" "waves (push_active x s) = waves s"
  by (simp_all add: push_active_def sess_def waves_def)

lemma createSource_throws: "create_throws f k \<Longrightarrow> createSource f k w fr vol s = (Abrupt, s)"
  by (simp add: createSource_def)

lemma createSource_ok:
  "\<not> create_throws f k \<Longrightarrow>
     createSource f k w fr vol s =
       (Normal (length (nodes s)),
        s\<lparr> nodes := nodes s @ [\<lparr> v_wave = w, v_freq = fr, v_vol = vol, v_ramp = None, v_start = None,
                                  v_end = None, v_onended = NoHandler, v_ended = False \<rparr>] \<rparr>)"
  by (simp add: createSource_def)

lemma nodes_update_frame [simp]:
  "sess (s\<lparr> nodes := ns \<rparr>) = sess s"
  "waves (s\<lparr> nodes := ns \<rparr>) = map v_wave ns"
  by (simp_all add: sess_def waves_def)

subsection \<open>What a one-shot effect may change\<close>

lemma grows_refl [simp]: "grows s s"
  by (simp add: grows_def)

lemma grows_trans:
  assumes "grows s s1" and "grows s1 s2"
  shows "grows s s2"
proof -
  from assms(1) obtain ws new where 1: "sess s1 = sess s" "ctx s \<longrightarrow> ctx s1"
      "waves s1 = waves s @ ws" "activeOscillators s1 = activeOscillators s @ new"
      "\<forall>i\<in>set new. length (waves s) \<le> i \<and> i < length (waves s1) \<and> waves s1 ! i \<noteq> Triangle"
    unfolding grows_def by blast
  from assms(2) obtain ws' new' where 2: "sess s2 = sess s1" "ctx s1 \<longrightarrow> ctx s2"
      "waves s2 = waves s1 @ ws'" "activeOscillators s2 = activeOscillators s1 @ new'"
      "\<forall>i\<in>set new'. length (waves s1) \<le> i \<and> i < length (waves s2) \<and> waves s2 ! i \<noteq> Triangle"
    unfolding grows_def by blast
  have w: "waves s2 = waves s @ (ws @ ws')" using 1(3) 2(3) by simp
  have a: "activeOscillators s2 = activeOscillators s @ (new @ new')" using 1(4) 2(4) by simp
  have "\<forall>i\<in>set (new @ new'). length (waves s) \<le> i \<and> i < length (waves s2) \<and> waves s2 ! i \<noteq> Triangle"
  proof
    fix i assume "i \<in> set (new @ new')"
    then consider "i \<in> set new" | "i \<in> set new'" by auto
    then show "length (waves s) \<le> i \<and> i < length (waves s2) \<and> waves s2 ! i \<noteq> Triangle"
    proof cases
      case 1
      with \<open>\<forall>i\<in>set new. _\<close> have "length (waves s) \<le> i" "i < length (waves s1)" "waves s1 ! i \<noteq> Triangle"
        by auto
      then show ?thesis using 2(3) by (simp add: nth_append)
    next
      case 2
      with \<open>\<forall>i\<in>set new'. _\<close> have "length (waves s1) \<le> i" "i < length (waves s2)" "waves s2 ! i \<noteq> Triangle"
        by auto
      then show ?thesis using 1(3) by simp
    qed
  qed
  then show ?thesis
    unfolding grows_def using w a 1(1,2) 2(1,2)
    by (intro conjI exI [of _ "ws @ ws'"] exI [of _ "new @ new'"]) simp_all
qed

lemma getCtx_grows: "grows s (snd (getCtx f s))"
  by (simp add: getCtx_def grows_def sess_def waves_def)

lemma forEach_grows:
  assumes "\<And>i x s. grows s (snd (body i x s))"
  shows "grows s (snd (forEach body i xs s))"
proof (induction xs arbitrary: i s)
  case Nil
  show ?case by simp
next
  case (Cons x xs)
  obtain c s1 where b: "body i x s = (c, s1)" by (cases "body i x s")
  have "grows s s1" using assms [of s i x] b by simp
  then show ?case using b Cons.IH [of s1 "Suc i"] by (cases c) (auto intro: grows_trans)
qed

lemma grows_new_voice:
  assumes "sess s' = sess s" "ctx s' = ctx s" "waves s' = waves s @ [w]" "w \<noteq> Triangle"
    "activeOscillators s' = activeOscillators s @ [length (nodes s)]"
  shows "grows s s'"
  unfolding grows_def using assms by (auto simp: waves_def [of s] nth_append)

lemma correct_voice_grows: "grows s (snd (correct_voice f t i fr s))"
  by (cases "create_throws f i")
     (auto simp: correct_voice_def Let_def createSource_throws createSource_ok waves_def [of s] intro!: grows_new_voice)

lemma heartbeat_voice_grows: "grows s (snd (heartbeat_voice f t i d s))"
  by (cases "create_throws f i")
     (auto simp: heartbeat_voice_def Let_def createSource_throws createSource_ok waves_def [of s] intro!: grows_new_voice)

lemma fanfare_voice_grows: "grows s (snd (fanfare_voice f t i fr s))"
  by (cases "create_throws f i")
     (auto simp: fanfare_voice_def Let_def createSource_throws createSource_ok waves_def [of s] intro!: grows_new_voice)

subsection \<open>The one-shot effects\<close>

lemma osc_body_ok:
  assumes "ctx s \<or> \<not> ctor_throws f" "\<not> create_throws f 0"
  shows "osc_body f ty fr d vol r s =
    (Normal (), s\<lparr> ctx := True,
       activeOscillators := activeOscillators s @ [length (nodes s)],
       nodes := nodes s @ [\<lparr> v_wave = ty, v_freq = fr, v_vol = vol, v_ramp = r,
         v_start = Some (currentTime s), v_end = Some (currentTime s + d),
         v_onended = DropActive [length (nodes s)], v_ended = False \<rparr>] \<rparr>)"
proof (cases "ctx s")
  case True
  then have "s\<lparr> ctx := True \<rparr> = s" by simp
  then show ?thesis using True assms(2)
    by (cases r) (simp_all add: osc_body_def getCtx_def createSource_def Let_def start_at_def stop_at_def
        ramp_to_def set_onended_def push_active_def upd_node_def currentTime_def)
next
  case False
  then show ?thesis using assms
    by (cases r) (simp_all add: osc_body_def getCtx_def createSource_def Let_def start_at_def stop_at_def
        ramp_to_def set_onended_def push_active_def upd_node_def currentTime_def)
qed

lemma osc_body_throws:
  assumes "(\<not> ctx s \<and> ctor_throws f) \<or> create_throws f 0"
  shows "osc_body f ty fr d vol r s = (Abrupt, snd (getCtx f s))"
  using assms by (auto simp: osc_body_def getCtx_def createSource_throws)

lemma osc_grows:
  assumes "ty \<noteq> Triangle"
  shows "grows s (snd (osc f ty fr d v r rest s))"
proof (cases "muted s")
  case True
  then show ?thesis by (simp add: osc_def)
next
  case False
  have "grows s (snd (osc_body f ty fr d vol r s))" for vol
  proof (cases "(\<not> ctx s \<and> ctor_throws f) \<or> create_throws f 0")
    case True
    then show ?thesis using getCtx_grows [of s f] by (simp add: osc_body_throws)
  next
    case False
    then have "ctx s \<or> \<not> ctor_throws f" "\<not> create_throws f 0" by auto
    then show ?thesis
      by (simp add: osc_body_ok grows_def sess_def waves_def assms nth_append)
  qed
  then show ?thesis using False by (simp add: osc_def try_catch_def)
qed

lemma body_grows:
  assumes "\<And>t i x s. grows s (snd (voice t i x s))"
  shows "grows s (snd (case getCtx f s of (Abrupt, s1) \<Rightarrow> (Abrupt, s1)
                        | (Normal u, s1) \<Rightarrow> forEach (voice (currentTime s1)) 0 xs s1))"
proof (cases "getCtx f s")
  case (Pair c s1)
  then have g: "grows s s1" using getCtx_grows [of s f] by simp
  show ?thesis
  proof (cases c)
    case (Normal u)
    have "grows s1 (snd (forEach (voice (currentTime s1)) 0 xs s1))"
      by (rule forEach_grows) (rule assms)
    with g show ?thesis using Pair Normal by (auto intro: grows_trans)
  next
    case Abrupt
    with g Pair show ?thesis by simp
  qed
qed

lemma correct_grows: "grows s (snd (correct f s))"
  using body_grows [where voice = "correct_voice f", OF correct_voice_grows]
  by (simp add: correct_def try_catch_def correct_body_def)

lemma heartbeat_grows: "grows s (snd (heartbeat f s))"
  using body_grows [where voice = "heartbeat_voice f", OF heartbeat_voice_grows]
  by (simp add: heartbeat_def try_catch_def heartbeat_body_def)

lemma fanfare_grows: "grows s (snd (fanfare f s))"
  using body_grows [where voice = "fanfare_voice f", OF fanfare_voice_grows]
  by (simp add: fanfare_def try_catch_def fanfare_body_def)

lemma osc_muted: "muted s \<Longrightarrow> osc f ty fr d v r rest s = (Normal (), s)"
  by (simp add: osc_def)

lemma osc_returns: "fst (osc f ty fr d v r rest s) = Normal ()"
  by (simp add: osc_def try_catch_def)

lemma grows_fields:
  assumes "grows s s'"
  shows "muted s' = muted s" "bgOscillators s' = bgOscillators s" "bgPlaying s' = bgPlaying s"
    "heartbeatInterval s' = heartbeatInterval s" "bgInterval s' = bgInterval s" "bgStep s' = bgStep s"
    "currentMusicType s' = currentMusicType s" "timers s' = timers s" "timer_seq s' = timer_seq s"
    "clock s' = clock s" "ctx s \<Longrightarrow> ctx s'"
  using assms by (simp_all add: grows_def sess_def)

lemma grows_inv_sess: "grows s s' \<Longrightarrow> inv_sess s \<Longrightarrow> inv_sess s'"
  by (simp add: inv_sess_def grows_fields)

lemma grows_inv_active:
  assumes "grows s s'" "inv_active s"
  shows "inv_active s'"
proof -
  from assms(1) obtain ws new where g: "waves s' = waves s @ ws"
      "activeOscillators s' = activeOscillators s @ new"
      "\<forall>i\<in>set new. length (waves s) \<le> i \<and> i < length (waves s') \<and> waves s' ! i \<noteq> Triangle"
    unfolding grows_def by blast
  show ?thesis
    unfolding inv_active_def
  proof
    fix i assume "i \<in> set (activeOscillators s')"
    then consider "i \<in> set (activeOscillators s)" | "i \<in> set new" using g(2) by auto
    then show "i < length (waves s') \<and> waves s' ! i \<noteq> Triangle"
    proof cases
      case 1
      then have "i < length (waves s)" "waves s ! i \<noteq> Triangle"
        using assms(2) by (auto simp: inv_active_def)
      then show ?thesis using g(1) by (simp add: nth_append)
    next
      case 2
      then show ?thesis using g(3) by blast
    qed
  qed
qed

lemma grows_engine_inv:
  assumes "grows s s'" "muted s \<Longrightarrow> s' = s" "engine_inv s"
  shows "engine_inv s'"
proof -
  have "inv_mute s'"
  proof (cases "muted s")
    case True
    then show ?thesis using assms(2,3) by (simp add: engine_inv_def)
  next
    case False
    then show ?thesis using grows_fields(1) [OF assms(1)] by (simp add: inv_mute_def)
  qed
  then show ?thesis
    using assms grows_inv_sess grows_inv_active by (auto simp: engine_inv_def)
qed

subsection \<open>The sequencer and the stops\<close>

lemma force_stop_fields [simp]:
  "ctx (force_stop f i s) = ctx s"
  "muted (force_stop f i s) = muted s"
  "activeOscillators (force_stop f i s) = activeOscillators s"
  "bgOscillators (force_stop f i s) = bgOscillators s"
  "bgPlaying (force_stop f i s) = bgPlaying s"
  "heartbeatInterval (force_stop f i s) = heartbeatInterval s"
  "bgInterval (force_stop f i s) = bgInterval s"
  "bgStep (force_stop f i s) = bgStep s"
  "currentMusicType (force_stop f i s) = currentMusicType s"
  "timers (force_stop f i s) = timers s"
  "timer_seq (force_stop f i s) = timer_seq s"
  "clock (force_stop f i s) = clock s"
  "waves (force_stop f i s) = waves s"
  by (simp_all add: force_stop_def upd_node_waves)

lemma force_stop_all_fields [simp]:
  "ctx (force_stop_all f ids s) = ctx s"
  "muted (force_stop_all f ids s) = muted s"
  "activeOscillators (force_stop_all f ids s) = activeOscillators s"
  "bgOscillators (force_stop_all f ids s) = bgOscillators s"
  "bgPlaying (force_stop_all f ids s) = bgPlaying s"
  "heartbeatInterval (force_stop_all f ids s) = heartbeatInterval s"
  "bgInterval (force_stop_all f ids s) = bgInterval s"
  "bgStep (force_stop_all f ids s) = bgStep s"
  "currentMusicType (force_stop_all f ids s) = currentMusicType s"
  "timers (force_stop_all f ids s) = timers s"
  "timer_seq (force_stop_all f ids s) = timer_seq s"
  "clock (force_stop_all f ids s) = clock s"
  "waves (force_stop_all f ids s) = waves s"
  by (induction ids arbitrary: s; simp)+

lemma stopHeartbeatLoop_returns: "fst (stopHeartbeatLoop s) = Normal ()"
  by (simp add: stopHeartbeatLoop_def split: option.splits)

lemma stopHeartbeatLoop_fields [simp]:
  "ctx (snd (stopHeartbeatLoop s)) = ctx s"
  "muted (snd (stopHeartbeatLoop s)) = muted s"
  "activeOscillators (snd (stopHeartbeatLoop s)) = activeOscillators s"
  "bgOscillators (snd (stopHeartbeatLoop s)) = bgOscillators s"
  "bgPlaying (snd (stopHeartbeatLoop s)) = bgPlaying s"
  "bgInterval (snd (stopHeartbeatLoop s)) = bgInterval s"
  "bgStep (snd (stopHeartbeatLoop s)) = bgStep s"
  "currentMusicType (snd (stopHeartbeatLoop s)) = currentMusicType s"
  "timer_seq (snd (stopHeartbeatLoop s)) = timer_seq s"
  "clock (snd (stopHeartbeatLoop s)) = clock s"
  "nodes (snd (stopHeartbeatLoop s)) = nodes s"
  by (simp_all add: stopHeartbeatLoop_def clearInterval_def split: option.splits)

lemma stopHeartbeatLoop_handle:
  "heartbeatInterval (snd (stopHeartbeatLoop s)) = (if heartbeatInterval s = Some 0 then Some 0 else None)"
  by (simp add: stopHeartbeatLoop_def clearInterval_def split: option.splits)

lemma stopHeartbeatLoop_timers:
  "timers (snd (stopHeartbeatLoop s)) =
     (case heartbeatInterval s of None \<Rightarrow> timers s
      | Some h \<Rightarrow> if h \<noteq> 0 then filter (\<lambda>t. t_id t \<noteq> h) (timers s) else timers s)"
  by (simp add: stopHeartbeatLoop_def clearInterval_def split: option.splits)

lemma stopBgMusic_returns: "fst (stopBgMusic f s) = Normal ()"
  by (simp add: stopBgMusic_def Let_def)

lemma stopBgMusic_fields [simp]:
  "ctx (snd (stopBgMusic f s)) = ctx s"
  "muted (snd (stopBgMusic f s)) = muted s"
  "activeOscillators (snd (stopBgMusic f s)) = activeOscillators s"
  "bgOscillators (snd (stopBgMusic f s)) = []"
  "bgPlaying (snd (stopBgMusic f s)) = False"
  "heartbeatInterval (snd (stopBgMusic f s)) = heartbeatInterval s"
  "bgStep (snd (stopBgMusic f s)) = bgStep s"
  "currentMusicType (snd (stopBgMusic f s)) = Null"
  "timer_seq (snd (stopBgMusic f s)) = timer_seq s"
  "clock (snd (stopBgMusic f s)) = clock s"
  by (simp_all add: stopBgMusic_def Let_def clearInterval_def split: option.splits)

lemma force_stop_all_wave_map [simp]:
  "map v_wave (nodes (force_stop_all f ids s)) = map v_wave (nodes s)"
  using force_stop_all_fields(13) [of f ids s] by (simp add: waves_def)

lemma stopBgMusic_waves [simp]: "waves (snd (stopBgMusic f s)) = waves s"
  by (simp add: stopBgMusic_def Let_def clearInterval_def waves_def split: option.splits)

lemma stopBgMusic_handle:
  "bgInterval (snd (stopBgMusic f s)) = (if bgInterval s = Some 0 then Some 0 else None)"
  by (simp add: stopBgMusic_def Let_def clearInterval_def split: option.splits)

lemma stopBgMusic_timers:
  "timers (snd (stopBgMusic f s)) =
     (case bgInterval s of None \<Rightarrow> timers s
      | Some h \<Rightarrow> if h \<noteq> 0 then filter (\<lambda>t. t_id t \<noteq> h) (timers s) else timers s)"
  by (simp add: stopBgMusic_def Let_def clearInterval_def split: option.splits)

lemma stopBgMusic_inv_sess: "inv_sess s \<Longrightarrow> inv_sess (snd (stopBgMusic f s))"
  by (auto simp: inv_sess_def stopBgMusic_handle stopBgMusic_timers split: option.splits)

lemma stopHeartbeatLoop_inv_sess: "inv_sess s \<Longrightarrow> inv_sess (snd (stopHeartbeatLoop s))"
  by (auto simp: inv_sess_def stopHeartbeatLoop_handle stopHeartbeatLoop_timers split: option.splits)

lemma stopBgMusic_inv: "engine_inv s \<Longrightarrow> engine_inv (snd (stopBgMusic f s))"
  by (simp add: engine_inv_def stopBgMusic_inv_sess inv_mute_def inv_active_def)

lemma stopHeartbeatLoop_inv: "engine_inv s \<Longrightarrow> engine_inv (snd (stopHeartbeatLoop s))"
  by (auto simp: engine_inv_def stopHeartbeatLoop_inv_sess inv_mute_def inv_active_def waves_def)

lemma waves_updates [simp]:
  "waves (s\<lparr> ctx := x0 \<rparr>) = waves s"
  "waves (s\<lparr> muted := x1 \<rparr>) = waves s"
  "waves (s\<lparr> activeOscillators := x2 \<rparr>) = waves s"
  "waves (s\<lparr> bgOscillators := x3 \<rparr>) = waves s"
  "waves (s\<lparr> bgPlaying := x4 \<rparr>) = waves s"
  "waves (s\<lparr> heartbeatInterval := x5 \<rparr>) = waves s"
  "waves (s\<lparr> bgInterval := x6 \<rparr>) = waves s"
  "waves (s\<lparr> bgStep := x7 \<rparr>) = waves s"
  "waves (s\<lparr> currentMusicType := x8 \<rparr>) = waves s"
  "waves (s\<lparr> timers := x9 \<rparr>) = waves s"
  "waves (s\<lparr> timer_seq := x10 \<rparr>) = waves s"
  "waves (s\<lparr> clock := x11 \<rparr>) = waves s"
  by (simp_all add: waves_def)

lemma stopHeartbeatLoop_waves [simp]: "waves (snd (stopHeartbeatLoop s)) = waves s"
  by (simp add: waves_def)

lemma stopHeartbeatLoop_eq: "stopHeartbeatLoop s = (Normal (), snd (stopHeartbeatLoop s))"
  using stopHeartbeatLoop_returns [of s] by (simp add: prod_eq_iff)

lemma stopBgMusic_eq: "stopBgMusic f s = (Normal (), snd (stopBgMusic f s))"
  using stopBgMusic_returns [of f s] by (simp add: prod_eq_iff)

lemma stopAll_eq:
  "stopAll f s =
     (Normal (), (force_stop_all f (activeOscillators s) (snd (stopBgMusic f (snd (stopHeartbeatLoop s)))))
                   \<lparr> activeOscillators := [] \<rparr>)"
proof -
  let ?s1 = "snd (stopHeartbeatLoop s)"
  have "stopAll f s =
      (case stopBgMusic f ?s1 of
         (Abrupt, s2) \<Rightarrow> (Abrupt, s2)
       | (Normal u, s2) \<Rightarrow> (Normal (), (force_stop_all f (activeOscillators s2) s2)\<lparr> activeOscillators := [] \<rparr>))"
    unfolding stopAll_def by (subst stopHeartbeatLoop_eq) simp
  also have "\<dots> = (Normal (), (force_stop_all f (activeOscillators (snd (stopBgMusic f ?s1)))
                        (snd (stopBgMusic f ?s1)))\<lparr> activeOscillators := [] \<rparr>)"
    by (subst stopBgMusic_eq) simp
  finally show ?thesis by simp
qed

lemma stopAll_fields [simp]:
  "ctx (snd (stopAll f s)) = ctx s"
  "muted (snd (stopAll f s)) = muted s"
  "activeOscillators (snd (stopAll f s)) = []"
  "bgOscillators (snd (stopAll f s)) = []"
  "bgPlaying (snd (stopAll f s)) = False"
  "bgStep (snd (stopAll f s)) = bgStep s"
  "currentMusicType (snd (stopAll f s)) = Null"
  "timer_seq (snd (stopAll f s)) = timer_seq s"
  "clock (snd (stopAll f s)) = clock s"
  "waves (snd (stopAll f s)) = waves s"
  by (simp_all add: stopAll_eq)

lemma stopAll_handles:
  "heartbeatInterval (snd (stopAll f s)) = (if heartbeatInterval s = Some 0 then Some 0 else None)"
  "bgInterval (snd (stopAll f s)) = (if bgInterval s = Some 0 then Some 0 else None)"
  by (simp_all add: stopAll_eq stopHeartbeatLoop_handle stopBgMusic_handle)

lemma stopAll_timers:
  assumes "inv_sess s"
  shows "timers (snd (stopAll f s)) = []"
proof -
  have "timers (snd (stopAll f s)) = timers (snd (stopBgMusic f (snd (stopHeartbeatLoop s))))"
    by (simp add: stopAll_eq)
  also have "\<dots> = []"
    using assms
    by (auto simp: stopBgMusic_timers stopHeartbeatLoop_timers inv_sess_def filter_empty_conv
        split: option.splits)
  finally show ?thesis .
qed

lemma stopAll_inv:
  assumes "inv_sess s"
  shows "engine_inv (snd (stopAll f s))"
  using assms
  by (simp add: engine_inv_def inv_mute_def inv_active_def inv_sess_def stopAll_timers stopAll_handles)

lemma toggleMute_eq:
  "toggleMute f s =
     (Normal (\<not> muted s),
      if muted s then s\<lparr> muted := False \<rparr> else snd (stopAll f (s\<lparr> muted := True \<rparr>)))"
  by (simp add: toggleMute_def Let_def stopAll_eq)

lemma inv_sess_muted [simp]: "inv_sess (s\<lparr> muted := b \<rparr>) = inv_sess s"
  by (simp add: inv_sess_def)

lemma toggleMute_inv:
  assumes "engine_inv s"
  shows "engine_inv (snd (toggleMute f s))"
proof (cases "muted s")
  case True
  then show ?thesis using assms
    by (simp add: toggleMute_eq engine_inv_def inv_mute_def inv_active_def waves_def)
next
  case False
  then show ?thesis using assms stopAll_inv [of "s\<lparr> muted := True \<rparr>" f]
    by (simp add: toggleMute_eq engine_inv_def)
qed

lemma push_bg_fields [simp]:
  "bg_frame (push_bg xs s) = bg_frame s" "waves (push_bg xs s) = waves s"
  by (simp_all add: push_bg_def bg_frame_def)

lemma bg_frame_prims [simp]:
  "bg_frame (start_at i t s) = bg_frame s"
  "bg_frame (stop_at i t s) = bg_frame s"
  "bg_frame (set_onended i h s) = bg_frame s"
  "bg_frame (s\<lparr> nodes := ns \<rparr>) = bg_frame s"
  "bg_frame (s\<lparr> bgStep := n \<rparr>) = bg_frame s"
  by (simp_all add: bg_frame_def)

lemma playGuitarPluck_frame:
  "bg_frame (snd (playGuitarPluck f fr vol dcy s)) = bg_frame s"
  "\<exists>ws. waves (snd (playGuitarPluck f fr vol dcy s)) = waves s @ ws"
  by (simp_all add: playGuitarPluck_def createSource_def Let_def waves_def [of s])

lemma playSuspense_frame:
  "bg_frame (snd (playSuspense f fr s)) = bg_frame s"
  "\<exists>ws. waves (snd (playSuspense f fr s)) = waves s @ ws"
  by (simp_all add: playSuspense_def createSource_def Let_def waves_def [of s])

lemma playNote_muted: "muted s \<Longrightarrow> playNote f ty s = (Normal (), s)"
  by (simp add: playNote_def)

lemma playNote_frame:
  "bg_frame (snd (playNote f ty s)) = bg_frame s"
  "\<exists>ws. waves (snd (playNote f ty s)) = waves s @ ws"
proof -
  let ?r = "if ty = ''lobby'' then playGuitarPluck f (sequence ty ! (bgStep s mod length (sequence ty))) 0.04 3.0 s
            else playSuspense f (sequence ty ! (bgStep s mod length (sequence ty))) s"
  have r: "bg_frame (snd ?r) = bg_frame s" "\<exists>ws. waves (snd ?r) = waves s @ ws"
    using playGuitarPluck_frame playSuspense_frame by simp_all
  obtain c s1 where p: "?r = (c, s1)" by (cases ?r)
  with r have s1: "bg_frame s1 = bg_frame s" "\<exists>ws. waves s1 = waves s @ ws" by simp_all
  have "snd (playNote f ty s) = s \<or> snd (playNote f ty s) = s1 \<or>
        snd (playNote f ty s) = s1\<lparr> bgStep := bgStep s1 + 1 \<rparr>"
    unfolding playNote_def Let_def p by (cases c) simp_all
  then show "bg_frame (snd (playNote f ty s)) = bg_frame s"
    "\<exists>ws. waves (snd (playNote f ty s)) = waves s @ ws"
    using s1 by auto
qed

lemma bg_frame_fields:
  assumes "bg_frame s' = bg_frame s"
  shows "ctx s' = ctx s" "muted s' = muted s" "activeOscillators s' = activeOscillators s"
    "bgPlaying s' = bgPlaying s" "heartbeatInterval s' = heartbeatInterval s"
    "bgInterval s' = bgInterval s" "currentMusicType s' = currentMusicType s"
    "timers s' = timers s" "timer_seq s' = timer_seq s" "clock s' = clock s"
  using assms by (simp_all add: bg_frame_def)

lemma playNote_inv:
  assumes "engine_inv s"
  shows "engine_inv (snd (playNote f ty s))"
proof (cases "muted s")
  case True
  then show ?thesis using assms by (simp add: playNote_muted)
next
  case False
  let ?s' = "snd (playNote f ty s)"
  note fr = bg_frame_fields [OF playNote_frame(1) [of f ty s]]
  obtain ws where ws: "waves ?s' = waves s @ ws" using playNote_frame(2) by blast
  have "inv_mute ?s'" using False fr(2) by (simp add: inv_mute_def)
  moreover have "inv_sess ?s'" using assms fr by (simp add: engine_inv_def inv_sess_def)
  moreover have "inv_active ?s'"
    using assms fr(3) ws by (auto simp: engine_inv_def inv_active_def nth_append)
  ultimately show ?thesis by (simp add: engine_inv_def)
qed

subsection \<open>The loops keep the invariant\<close>

lemma heartbeat_eq: "heartbeat f s = (Normal (), snd (heartbeat f s))"
  by (simp add: heartbeat_def try_catch_def)

lemma heartbeat_muted: "muted s \<Longrightarrow> heartbeat f s = (Normal (), s)"
  by (simp add: heartbeat_def)

lemma heartbeat_inv: "engine_inv s \<Longrightarrow> engine_inv (snd (heartbeat f s))"
  by (rule grows_engine_inv [OF heartbeat_grows]) (simp_all add: heartbeat_muted)

lemma startHeartbeatLoop_eq:
  "startHeartbeatLoop f s =
     (Normal (),
      if truthy (heartbeatInterval s) then s
      else (snd (heartbeat f s))
             \<lparr> timers := timers s @ [\<lparr> t_id = Suc (timer_seq s), t_cb = HeartbeatCb, t_period = 800,
                                      t_due = clock s + 800 \<rparr>],
               timer_seq := Suc (timer_seq s),
               heartbeatInterval := Some (Suc (timer_seq s)) \<rparr>)"
proof -
  note g = grows_fields [OF heartbeat_grows [of s f]]
  show ?thesis
    unfolding startHeartbeatLoop_def
    by (subst heartbeat_eq) (simp add: setInterval_def Let_def g)
qed

lemma install_heartbeat_inv:
  assumes "engine_inv s" "\<not> truthy (heartbeatInterval s)"
  shows "engine_inv (s\<lparr> timers := timers s @ [\<lparr> t_id = Suc n, t_cb = cb, t_period = p, t_due = d \<rparr>],
                        timer_seq := m, heartbeatInterval := Some (Suc n) \<rparr>)"
proof -
  have h: "heartbeatInterval s = None"
    using assms by (cases "heartbeatInterval s") (auto simp: truthy_def engine_inv_def inv_sess_def)
  show ?thesis
    using assms(1) h by (auto simp: engine_inv_def inv_mute_def inv_sess_def inv_active_def)
qed

lemma startHeartbeatLoop_inv:
  assumes "engine_inv s"
  shows "engine_inv (snd (startHeartbeatLoop f s))"
proof (cases "truthy (heartbeatInterval s)")
  case True
  then show ?thesis using assms by (simp add: startHeartbeatLoop_eq)
next
  case False
  let ?s1 = "snd (heartbeat f s)"
  note g = grows_fields [OF heartbeat_grows [of s f]]
  have 1: "engine_inv ?s1" using assms by (rule heartbeat_inv)
  have 2: "\<not> truthy (heartbeatInterval ?s1)" using False g by simp
  show ?thesis
    using install_heartbeat_inv [OF 1 2, where n = "timer_seq s" and cb = HeartbeatCb and p = 800
        and d = "clock s + 800" and m = "Suc (timer_seq s)"]
      False g
    by (simp add: startHeartbeatLoop_eq)
qed

lemma getCtx_cases:
  "getCtx f s = (if \<not> ctx s \<and> ctor_throws f then (Abrupt, s) else (Normal (), s\<lparr> ctx := True \<rparr>))"
  by (simp add: getCtx_def)

lemma playNote_eq_frame:
  "bgPlaying (snd (playNote f ty s)) = bgPlaying s"
  "ctx (snd (playNote f ty s)) = ctx s"
  "muted (snd (playNote f ty s)) = muted s"
  "bgInterval (snd (playNote f ty s)) = bgInterval s"
  "heartbeatInterval (snd (playNote f ty s)) = heartbeatInterval s"
  "timers (snd (playNote f ty s)) = timers s"
  "timer_seq (snd (playNote f ty s)) = timer_seq s"
  "clock (snd (playNote f ty s)) = clock s"
  "currentMusicType (snd (playNote f ty s)) = currentMusicType s"
  "activeOscillators (snd (playNote f ty s)) = activeOscillators s"
  using bg_frame_fields [OF playNote_frame(1) [of f ty s]] by simp_all

lemma install_bg_inv:
  assumes "engine_inv s" "bgInterval s = None" "bgPlaying s"
  shows "engine_inv (s\<lparr> timers := timers s @ [\<lparr> t_id = Suc n, t_cb = cb, t_period = p, t_due = d \<rparr>],
                        timer_seq := m, bgInterval := Some (Suc n) \<rparr>)"
  using assms by (auto simp: engine_inv_def inv_mute_def inv_sess_def inv_active_def)

lemma begin_inv:
  assumes "engine_inv s" "\<not> bgPlaying s" "\<not> muted s"
  shows "engine_inv (s\<lparr> ctx := True, bgPlaying := True, currentMusicType := m, bgStep := 0 \<rparr>)"
  using assms by (auto simp: engine_inv_def inv_mute_def inv_sess_def inv_active_def)

lemma startBgMusic_body_inv:
  assumes "engine_inv s" "\<not> bgPlaying s" "\<not> muted s"
  shows "engine_inv (snd (startBgMusic_body f ty s))"
proof (cases "\<not> ctx s \<and> ctor_throws f")
  case True
  then show ?thesis using assms(1) by (simp add: startBgMusic_body_def getCtx_cases)
next
  case False
  let ?s2 = "s\<lparr> ctx := True, bgPlaying := True, currentMusicType := Type ty, bgStep := 0 \<rparr>"
  let ?s3 = "snd (playNote f ty ?s2)"
  have 2: "engine_inv ?s2" using assms by (rule begin_inv)
  have 3: "engine_inv ?s3" using 2 by (rule playNote_inv)
  have b: "bgInterval ?s3 = None" "bgPlaying ?s3"
    using assms(1,2) by (simp_all add: playNote_eq_frame engine_inv_def inv_sess_def)
  obtain c s3 where p: "playNote f ty ?s2 = (c, s3)" by (cases "playNote f ty ?s2")
  have e: "snd (startBgMusic_body f ty s) =
      (case c of Abrupt \<Rightarrow> s3
       | Normal u \<Rightarrow>
          s3\<lparr> timers := timers s3 @ [\<lparr> t_id = Suc (timer_seq s3), t_cb = PlayNoteCb ty,
                                     t_period = interval ty, t_due = clock s3 + interval ty \<rparr>],
              timer_seq := Suc (timer_seq s3), bgInterval := Some (Suc (timer_seq s3)) \<rparr>)"
    using False p
    by (auto simp: startBgMusic_body_def getCtx_cases setInterval_def Let_def split: completion.splits)
  have s3: "s3 = ?s3" using p by simp
  show ?thesis
  proof (cases c)
    case Abrupt
    then show ?thesis using e 3 s3 by simp
  next
    case (Normal u)
    then show ?thesis using e install_bg_inv [OF 3 b] s3 by simp
  qed
qed

lemma startBgMusic_eq:
  "startBgMusic f arg s =
     (Normal (),
      if muted s \<or> (bgPlaying s \<and> currentMusicType s = Type (case arg of None \<Rightarrow> ''lobby'' | Some t \<Rightarrow> t))
      then s
      else snd (startBgMusic_body f (case arg of None \<Rightarrow> ''lobby'' | Some t \<Rightarrow> t)
                  (if bgPlaying s then snd (stopBgMusic f s) else s)))"
proof -
  obtain s1 where 1: "stopBgMusic f s = (Normal (), s1)" using stopBgMusic_eq by blast
  show ?thesis
    by (simp add: startBgMusic_def Let_def try_catch_def 1)
qed

lemma startBgMusic_inv:
  assumes "engine_inv s"
  shows "engine_inv (snd (startBgMusic f arg s))"
proof -
  define ty where "ty = (case arg of None \<Rightarrow> ''lobby'' | Some t \<Rightarrow> t)"
  show ?thesis
  proof (cases "muted s \<or> (bgPlaying s \<and> currentMusicType s = Type ty)")
    case True
    then show ?thesis using assms unfolding startBgMusic_eq ty_def by simp
  next
    case False
    let ?s1 = "if bgPlaying s then snd (stopBgMusic f s) else s"
    have 1: "engine_inv ?s1" "\<not> bgPlaying ?s1" "\<not> muted ?s1"
      using assms False by (auto simp: stopBgMusic_inv)
    have "snd (startBgMusic f arg s) = snd (startBgMusic_body f ty ?s1)"
      using False unfolding startBgMusic_eq ty_def by auto
    then show ?thesis using startBgMusic_body_inv [OF 1] by simp
  qed
qed

subsection \<open>The event loop keeps the invariant\<close>

lemma run_handler_fields [simp]:
  "ctx (run_handler h s) = ctx s"
  "muted (run_handler h s) = muted s"
  "bgPlaying (run_handler h s) = bgPlaying s"
  "heartbeatInterval (run_handler h s) = heartbeatInterval s"
  "bgInterval (run_handler h s) = bgInterval s"
  "bgStep (run_handler h s) = bgStep s"
  "currentMusicType (run_handler h s) = currentMusicType s"
  "timers (run_handler h s) = timers s"
  "timer_seq (run_handler h s) = timer_seq s"
  "clock (run_handler h s) = clock s"
  "nodes (run_handler h s) = nodes s"
  "waves (run_handler h s) = waves s"
  by (cases h; simp add: waves_def)+

lemma run_handler_registries:
  "set (activeOscillators (run_handler h s)) \<subseteq> set (activeOscillators s)"
  "set (bgOscillators (run_handler h s)) \<subseteq> set (bgOscillators s)"
  by (cases h; auto)+

lemma run_handler_empty:
  "activeOscillators s = [] \<Longrightarrow> activeOscillators (run_handler h s) = []"
  "bgOscillators s = [] \<Longrightarrow> bgOscillators (run_handler h s) = []"
  by (cases h; simp)+

lemma mark_ended_waves [simp]:
  "map v_wave (xs[i := (xs ! i)\<lparr> v_ended := True \<rparr>]) = map v_wave xs"
  by (cases "i < length xs") (simp_all add: map_update list_update_same_conv list_update_beyond)

lemma run_handler_inv:
  assumes "engine_inv s"
  shows "engine_inv (run_handler h s)"
proof -
  have "inv_mute (run_handler h s)"
    using assms by (auto simp: engine_inv_def inv_mute_def run_handler_empty)
  moreover have "inv_sess (run_handler h s)"
    using assms by (simp add: engine_inv_def inv_sess_def)
  moreover have "inv_active (run_handler h s)"
    using assms run_handler_registries(1) [of h s] by (auto simp: engine_inv_def inv_active_def)
  ultimately show ?thesis by (simp add: engine_inv_def)
qed

lemma mark_ended_inv:
  assumes "engine_inv s"
  shows "engine_inv (s\<lparr> nodes := (nodes s)[i := (nodes s ! i)\<lparr> v_ended := True \<rparr>] \<rparr>)"
  using assms by (auto simp: engine_inv_def inv_mute_def inv_sess_def inv_active_def waves_def)

lemma end_voice_inv: "engine_inv s \<Longrightarrow> engine_inv (end_voice i s)"
  by (simp add: end_voice_def run_handler_inv mark_ended_inv)

lemma end_voices_inv: "engine_inv s \<Longrightarrow> engine_inv (end_voices n s)"
  by (induction n arbitrary: s) (simp_all add: end_voice_inv)

lemma rearm_inv:
  assumes "engine_inv s"
  shows "engine_inv (s\<lparr> timers := map (\<lambda>u. if t_id u = k then u\<lparr> t_due := t_due u + t_period u \<rparr> else u)
                                     (timers s) \<rparr>)"
  using assms by (auto simp: engine_inv_def inv_mute_def inv_sess_def inv_active_def)

lemma run_callback_inv: "engine_inv s \<Longrightarrow> engine_inv (snd (run_callback f cb s))"
  by (cases cb) (simp_all add: heartbeat_inv playNote_inv)

lemma fire_inv: "engine_inv s \<Longrightarrow> engine_inv (fire f t s)"
  by (simp add: fire_def run_callback_inv rearm_inv del: set_map)

lemma fire_timers_inv: "engine_inv s \<Longrightarrow> engine_inv (fire_timers f ts s)"
  by (induction ts arbitrary: s) (simp_all add: fire_inv)

lemma clock_inv: "engine_inv s \<Longrightarrow> engine_inv (s\<lparr> clock := c \<rparr>)"
  by (simp add: engine_inv_def inv_mute_def inv_sess_def inv_active_def)

lemma advance_ms_inv: "engine_inv s \<Longrightarrow> engine_inv (advance_ms f s)"
  by (simp add: advance_ms_def Let_def fire_timers_inv end_voices_inv clock_inv)

lemma elapse_inv: "engine_inv s \<Longrightarrow> engine_inv (elapse f n s)"
  by (induction n arbitrary: s) (simp_all add: advance_ms_inv)

subsection \<open>Every call keeps the invariant and returns\<close>

lemma click_grows: "grows s (snd (click f s))"
  and wrong_grows: "grows s (snd (wrong f s))"
  and tick_grows: "grows s (snd (tick f s))"
  and lightBeep_grows: "grows s (snd (lightBeep f s))"
  and goBurst_grows: "grows s (snd (goBurst f s))"
  and falseStart_grows: "grows s (snd (falseStart f s))"
  by (simp_all add: click_def wrong_def tick_def lightBeep_def goBurst_def falseStart_def osc_grows)

lemma effect_muted:
  assumes "muted s"
  shows "click f s = (Normal (), s)" "correct f s = (Normal (), s)" "wrong f s = (Normal (), s)"
    "tick f s = (Normal (), s)" "heartbeat f s = (Normal (), s)" "lightBeep f s = (Normal (), s)"
    "goBurst f s = (Normal (), s)" "falseStart f s = (Normal (), s)" "fanfare f s = (Normal (), s)"
  using assms
  by (simp_all add: click_def wrong_def tick_def lightBeep_def goBurst_def falseStart_def osc_def
      correct_def heartbeat_def fanfare_def)

lemma effect_returns:
  "fst (click f s) = Normal ()" "fst (correct f s) = Normal ()" "fst (wrong f s) = Normal ()"
  "fst (tick f s) = Normal ()" "fst (heartbeat f s) = Normal ()" "fst (lightBeep f s) = Normal ()"
  "fst (goBurst f s) = Normal ()" "fst (falseStart f s) = Normal ()" "fst (fanfare f s) = Normal ()"
  by (simp_all add: click_def wrong_def tick_def lightBeep_def goBurst_def falseStart_def osc_returns
      correct_def heartbeat_def fanfare_def try_catch_def)

lemma perform_returns: "fst (perform f c s) = Normal ()"
  by (cases c)
     (simp_all add: effect_returns startHeartbeatLoop_eq stopHeartbeatLoop_returns startBgMusic_eq
       stopBgMusic_returns stopAll_eq toggleMute_eq)

lemma perform_inv:
  assumes "engine_inv s"
  shows "engine_inv (snd (perform f c s))"
proof (cases c)
  case Click
  then show ?thesis using grows_engine_inv [OF click_grows _ assms] by (simp add: effect_muted)
next
  case Correct
  then show ?thesis using grows_engine_inv [OF correct_grows _ assms] by (simp add: effect_muted)
next
  case Wrong
  then show ?thesis using grows_engine_inv [OF wrong_grows _ assms] by (simp add: effect_muted)
next
  case Tick
  then show ?thesis using grows_engine_inv [OF tick_grows _ assms] by (simp add: effect_muted)
next
  case Heartbeat
  then show ?thesis using heartbeat_inv [OF assms] by simp
next
  case LightBeep
  then show ?thesis using grows_engine_inv [OF lightBeep_grows _ assms] by (simp add: effect_muted)
next
  case GoBurst
  then show ?thesis using grows_engine_inv [OF goBurst_grows _ assms] by (simp add: effect_muted)
next
  case FalseStart
  then show ?thesis using grows_engine_inv [OF falseStart_grows _ assms] by (simp add: effect_muted)
next
  case Fanfare
  then show ?thesis using grows_engine_inv [OF fanfare_grows _ assms] by (simp add: effect_muted)
next
  case StartHeartbeatLoop
  then show ?thesis using startHeartbeatLoop_inv [OF assms] by simp
next
  case StopHeartbeatLoop
  then show ?thesis using stopHeartbeatLoop_inv [OF assms] by simp
next
  case (StartBgMusic arg)
  then show ?thesis using startBgMusic_inv [OF assms] by simp
next
  case StopBgMusic
  then show ?thesis using stopBgMusic_inv [OF assms] by simp
next
  case StopAll
  then show ?thesis using stopAll_inv [of s f] assms by (simp add: engine_inv_def)
next
  case ToggleMute
  then show ?thesis using toggleMute_inv [OF assms, of f] by (simp add: toggleMute_eq)
qed

lemma step_inv: "engine_inv s \<Longrightarrow> engine_inv (step s e)"
  by (cases e) (simp_all add: perform_inv elapse_inv)

lemma init_inv: "engine_inv init"
  by (simp add: engine_inv_def inv_mute_def inv_sess_def inv_active_def init_def)

lemma foldl_step_inv: "engine_inv s \<Longrightarrow> engine_inv (foldl step s es)"
  by (induction es arbitrary: s) (simp_all add: step_inv)

lemma run_inv: "engine_inv (run es init)"
  by (simp add: run_def foldl_step_inv init_inv)

subsection \<open>Closed forms of the voices\<close>

lemma amend_new [simp]:
  "amend (length xs) g (xs @ v # ys) = xs @ g v # ys"
  "amend (Suc (length xs)) g (xs @ v0 # v # ys) = xs @ v0 # g v # ys"
  "amend (Suc (Suc (length xs))) g (xs @ v0 # v1 # v # ys) = xs @ v0 # v1 # g v # ys"
  by (simp_all add: amend_def nth_append list_update_append)

lemma nodes_prims [simp]:
  "nodes (upd_node i g s) = amend i g (nodes s)"
  "nodes (start_at i t s) = amend i (\<lambda>v. v\<lparr> v_start := Some t \<rparr>) (nodes s)"
  "nodes (stop_at i t s) = amend i (\<lambda>v. v\<lparr> v_end := Some t \<rparr>) (nodes s)"
  "nodes (ramp_to i r s) = amend i (\<lambda>v. v\<lparr> v_ramp := Some r \<rparr>) (nodes s)"
  "nodes (set_onended i h s) = amend i (\<lambda>v. v\<lparr> v_onended := h \<rparr>) (nodes s)"
  "nodes (push_active x s) = nodes s"
  "nodes (push_bg xs s) = nodes s"
  by (simp_all add: upd_node_def start_at_def stop_at_def ramp_to_def set_onended_def amend_def
      push_active_def push_bg_def)

lemma push_fields [simp]:
  "ctx (push_active x s) = ctx s" "muted (push_active x s) = muted s"
  "bgOscillators (push_active x s) = bgOscillators s" "bgPlaying (push_active x s) = bgPlaying s"
  "heartbeatInterval (push_active x s) = heartbeatInterval s" "bgInterval (push_active x s) = bgInterval s"
  "bgStep (push_active x s) = bgStep s" "currentMusicType (push_active x s) = currentMusicType s"
  "timers (push_active x s) = timers s" "timer_seq (push_active x s) = timer_seq s"
  "clock (push_active x s) = clock s"
  "ctx (push_bg xs s) = ctx s" "muted (push_bg xs s) = muted s"
  "activeOscillators (push_bg xs s) = activeOscillators s"
  "bgOscillators (push_bg xs s) = bgOscillators s @ xs" "bgPlaying (push_bg xs s) = bgPlaying s"
  "heartbeatInterval (push_bg xs s) = heartbeatInterval s" "bgInterval (push_bg xs s) = bgInterval s"
  "bgStep (push_bg xs s) = bgStep s" "currentMusicType (push_bg xs s) = currentMusicType s"
  "timers (push_bg xs s) = timers s" "timer_seq (push_bg xs s) = timer_seq s"
  "clock (push_bg xs s) = clock s"
  by (simp_all add: push_active_def push_bg_def)

lemma currentTime_clock: "clock s' = clock s \<Longrightarrow> currentTime s' = currentTime s"
  by (simp add: currentTime_def)

lemma currentTime_prims [simp]:
  "currentTime (start_at i t s) = currentTime s"
  "currentTime (stop_at i t s) = currentTime s"
  "currentTime (ramp_to i r s) = currentTime s"
  "currentTime (set_onended i h s) = currentTime s"
  "currentTime (push_active x s) = currentTime s"
  "currentTime (push_bg xs s) = currentTime s"
  "currentTime (s\<lparr> nodes := ns \<rparr>) = currentTime s"
  "currentTime (s\<lparr> ctx := b \<rparr>) = currentTime s"
  "currentTime (s\<lparr> bgPlaying := b \<rparr>) = currentTime s"
  "currentTime (s\<lparr> bgStep := n \<rparr>) = currentTime s"
  "currentTime (s\<lparr> currentMusicType := m \<rparr>) = currentTime s"
  by (simp_all add: currentTime_def)

lemma more_prims [simp]:
  "engine.more (upd_node i g s) = engine.more s"
  "engine.more (start_at i t s) = engine.more s"
  "engine.more (stop_at i t s) = engine.more s"
  "engine.more (ramp_to i r s) = engine.more s"
  "engine.more (set_onended i h s) = engine.more s"
  "engine.more (push_active x s) = engine.more s"
  "engine.more (push_bg xs s) = engine.more s"
  by (simp_all add: upd_node_def start_at_def stop_at_def ramp_to_def set_onended_def
      push_active_def push_bg_def)

lemma heartbeat_voice_ok:
  assumes "\<not> create_throws f i"
  shows "heartbeat_voice f t i delay s =
    (Normal (), s\<lparr> activeOscillators := activeOscillators s @ [length (nodes s)],
       nodes := nodes s @ [\<lparr> v_wave = Sine, v_freq = 60, v_vol = 0.2, v_ramp = None,
         v_start = Some (t + delay), v_end = Some (t + delay + 0.15),
         v_onended = DropActive [length (nodes s)], v_ended = False \<rparr>] \<rparr>)"
    (is "?lhs = (Normal (), ?S)")
proof -
  have 1: "fst ?lhs = Normal ()"
    by (simp add: heartbeat_voice_def createSource_ok assms Let_def)
  have 2: "snd ?lhs = ?S"
    by (rule engine.equality) (simp_all add: heartbeat_voice_def createSource_ok assms Let_def)
  show ?thesis using 1 2 by (simp add: prod_eq_iff)
qed



lemma playGuitarPluck_ok:
  assumes "\<not> create_throws f 0" "\<not> create_throws f (Suc 0)" "\<not> create_throws f 2"
  shows "playGuitarPluck f fr vol dcy s =
    (Normal (), s\<lparr> bgOscillators := bgOscillators s @ [length (nodes s), Suc (length (nodes s))],
       nodes := nodes s @
        [\<lparr> v_wave = Triangle, v_freq = fr, v_vol = vol, v_ramp = None,
         v_start = Some (currentTime s), v_end = Some (currentTime s + dcy),
         v_onended = DropBg [length (nodes s), Suc (length (nodes s))], v_ended = False \<rparr>,
         \<lparr> v_wave = Triangle, v_freq = fr * 2, v_vol = vol * 0.4, v_ramp = None,
         v_start = Some (currentTime s), v_end = Some (currentTime s + dcy),
         v_onended = NoHandler, v_ended = False \<rparr>,
         \<lparr> v_wave = WhiteNoise, v_freq = 0, v_vol = vol * 0.2, v_ramp = None,
         v_start = Some (currentTime s), v_end = Some (currentTime s + 0.02),
         v_onended = NoHandler, v_ended = False \<rparr>] \<rparr>)"
    (is "?lhs = (Normal (), ?S)")
proof -
  have 1: "fst ?lhs = Normal ()"
    by (simp add: playGuitarPluck_def createSource_ok assms Let_def)
  have 2: "snd ?lhs = ?S"
    by (rule engine.equality) (simp_all add: playGuitarPluck_def createSource_ok assms Let_def)
  show ?thesis using 1 2 by (simp add: prod_eq_iff)
qed

lemma playSuspense_ok:
  assumes "\<not> create_throws f 0" "\<not> create_throws f (Suc 0)"
  shows "playSuspense f fr s =
    (Normal (), s\<lparr> bgOscillators := bgOscillators s @ [length (nodes s)],
       nodes := nodes s @
        (\<lparr> v_wave = Sine, v_freq = fr, v_vol = 0.05, v_ramp = None,
         v_start = Some (currentTime s), v_end = Some (currentTime s + 4.0),
         v_onended = DropBg [length (nodes s)], v_ended = False \<rparr> #
         (if bgStep s mod 4 = 0
          then [\<lparr> v_wave = Sine, v_freq = fr * 4, v_vol = 0.015, v_ramp = None,
         v_start = Some (currentTime s), v_end = Some (currentTime s + 4.0),
         v_onended = NoHandler, v_ended = False \<rparr>]
          else [])) \<rparr>)"
    (is "?lhs = (Normal (), ?S)")
proof -
  have 1: "fst ?lhs = Normal ()"
    by (simp add: playSuspense_def createSource_ok assms Let_def)
  have 2: "snd ?lhs = ?S"
    by (rule engine.equality) (simp_all add: playSuspense_def createSource_ok assms Let_def)
  show ?thesis using 1 2 by (simp add: prod_eq_iff)
qed

subsection \<open>Closed forms of the calls when the platform does not fail\<close>

lemma heartbeat_ok:
  assumes "\<not> muted s" "ctx s \<or> \<not> ctor_throws f" "\<not> create_throws f 0" "\<not> create_throws f (Suc 0)"
  shows "heartbeat f s =
    (Normal (), s\<lparr> ctx := True,
       activeOscillators := activeOscillators s @ [length (nodes s), Suc (length (nodes s))],
       nodes := nodes s @
         [\<lparr> v_wave = Sine, v_freq = 60, v_vol = 0.2, v_ramp = None,
            v_start = Some (currentTime s + 0), v_end = Some (currentTime s + 0 + 0.15),
            v_onended = DropActive [length (nodes s)], v_ended = False \<rparr>,
          \<lparr> v_wave = Sine, v_freq = 60, v_vol = 0.2, v_ramp = None,
            v_start = Some (currentTime s + 0.15), v_end = Some (currentTime s + 0.15 + 0.15),
            v_onended = DropActive [Suc (length (nodes s))], v_ended = False \<rparr>] \<rparr>)"
  using assms
  by (auto simp: heartbeat_def try_catch_def heartbeat_body_def getCtx_cases heartbeat_voice_ok)

lemma startHeartbeatLoop_ok:
  assumes "\<not> truthy (heartbeatInterval s)" "\<not> muted s" "ctx s \<or> \<not> ctor_throws f"
    "\<not> create_throws f 0" "\<not> create_throws f (Suc 0)"
  shows "startHeartbeatLoop f s =
    (Normal (), s\<lparr> ctx := True,
       activeOscillators := activeOscillators s @ [length (nodes s), Suc (length (nodes s))],
       nodes := nodes s @
         [\<lparr> v_wave = Sine, v_freq = 60, v_vol = 0.2, v_ramp = None,
            v_start = Some (currentTime s + 0), v_end = Some (currentTime s + 0 + 0.15),
            v_onended = DropActive [length (nodes s)], v_ended = False \<rparr>,
          \<lparr> v_wave = Sine, v_freq = 60, v_vol = 0.2, v_ramp = None,
            v_start = Some (currentTime s + 0.15), v_end = Some (currentTime s + 0.15 + 0.15),
            v_onended = DropActive [Suc (length (nodes s))], v_ended = False \<rparr>],
       timers := timers s @ [\<lparr> t_id = Suc (timer_seq s), t_cb = HeartbeatCb, t_period = 800,
                                t_due = clock s + 800 \<rparr>],
       timer_seq := Suc (timer_seq s),
       heartbeatInterval := Some (Suc (timer_seq s)) \<rparr>)"
  using assms by (simp add: startHeartbeatLoop_eq heartbeat_ok)

lemma startHeartbeatLoop_muted:
  assumes "\<not> truthy (heartbeatInterval s)" "muted s"
  shows "startHeartbeatLoop f s =
    (Normal (), s\<lparr> timers := timers s @ [\<lparr> t_id = Suc (timer_seq s), t_cb = HeartbeatCb,
                                           t_period = 800, t_due = clock s + 800 \<rparr>],
                  timer_seq := Suc (timer_seq s),
                  heartbeatInterval := Some (Suc (timer_seq s)) \<rparr>)"
  using assms by (simp add: startHeartbeatLoop_eq heartbeat_muted)

subsection \<open>Counting heartbeat units\<close>

lemma filter_update_same:
  assumes "P y = P (xs ! i)"
  shows "length (filter P (xs[i := y])) = length (filter P xs)"
proof (cases "i < length xs")
  case True
  have f: "length (filter P zs) = length (filter (\<lambda>b. b) (map P zs))" for zs
    by (induction zs) simp_all
  have m: "map P (xs[i := y]) = map P xs"
    using assms True by (simp add: map_update list_update_same_conv)
  show ?thesis unfolding f m by (rule refl)
next
  case False
  then show ?thesis by (simp add: list_update_beyond)
qed

lemma thumps_updates [simp]:
  "thumps (s\<lparr> ctx := x0 \<rparr>) = thumps s"
  "thumps (s\<lparr> muted := x1 \<rparr>) = thumps s"
  "thumps (s\<lparr> activeOscillators := x2 \<rparr>) = thumps s"
  "thumps (s\<lparr> bgOscillators := x3 \<rparr>) = thumps s"
  "thumps (s\<lparr> bgPlaying := x4 \<rparr>) = thumps s"
  "thumps (s\<lparr> heartbeatInterval := x5 \<rparr>) = thumps s"
  "thumps (s\<lparr> bgInterval := x6 \<rparr>) = thumps s"
  "thumps (s\<lparr> bgStep := x7 \<rparr>) = thumps s"
  "thumps (s\<lparr> currentMusicType := x8 \<rparr>) = thumps s"
  "thumps (s\<lparr> timers := x9 \<rparr>) = thumps s"
  "thumps (s\<lparr> timer_seq := x10 \<rparr>) = thumps s"
  "thumps (s\<lparr> clock := x11 \<rparr>) = thumps s"
  by (simp_all add: thumps_def)

lemma end_voice_fields [simp]:
  "ctx (end_voice i s) = ctx s"
  "muted (end_voice i s) = muted s"
  "bgPlaying (end_voice i s) = bgPlaying s"
  "heartbeatInterval (end_voice i s) = heartbeatInterval s"
  "bgInterval (end_voice i s) = bgInterval s"
  "bgStep (end_voice i s) = bgStep s"
  "currentMusicType (end_voice i s) = currentMusicType s"
  "timers (end_voice i s) = timers s"
  "timer_seq (end_voice i s) = timer_seq s"
  "clock (end_voice i s) = clock s"
  "length (nodes (end_voice i s)) = length (nodes s)"
  by (simp_all add: end_voice_def)

lemma end_voice_thumps [simp]: "thumps (end_voice i s) = thumps s"
  by (simp add: end_voice_def thumps_def filter_update_same)

lemma end_voices_fields [simp]:
  "ctx (end_voices n s) = ctx s"
  "muted (end_voices n s) = muted s"
  "bgPlaying (end_voices n s) = bgPlaying s"
  "heartbeatInterval (end_voices n s) = heartbeatInterval s"
  "bgInterval (end_voices n s) = bgInterval s"
  "bgStep (end_voices n s) = bgStep s"
  "currentMusicType (end_voices n s) = currentMusicType s"
  "timers (end_voices n s) = timers s"
  "timer_seq (end_voices n s) = timer_seq s"
  "clock (end_voices n s) = clock s"
  "length (nodes (end_voices n s)) = length (nodes s)"
  "thumps (end_voices n s) = thumps s"
  by (induction n arbitrary: s; simp)+

lemma advance_ms_quiet:
  assumes "hb_loop h due s" "clock s + 1 < due"
  shows "hb_loop h due (advance_ms f s)" "thumps (advance_ms f s) = thumps s"
    "clock (advance_ms f s) = clock s + 1"
  using assms by (simp_all add: advance_ms_def Let_def hb_loop_def fire_def)

lemma advance_ms_beat:
  assumes "hb_loop h due s" "clock s + 1 = due"
  shows "hb_loop h (due + 800) (advance_ms no_faults s)"
    "thumps (advance_ms no_faults s) = thumps s + 2"
    "clock (advance_ms no_faults s) = clock s + 1"
proof -
  let ?s2 = "end_voices (length (nodes s)) (s\<lparr> clock := clock s + 1 \<rparr>)"
  let ?s3 = "?s2\<lparr> timers := [\<lparr> t_id = h, t_cb = HeartbeatCb, t_period = 800, t_due = due + 800 \<rparr>] \<rparr>"
  have t: "timers ?s2 = [\<lparr> t_id = h, t_cb = HeartbeatCb, t_period = 800, t_due = due \<rparr>]"
    "clock ?s2 = due" "\<not> muted ?s2"
    using assms by (simp_all add: hb_loop_def)
  have a: "advance_ms no_faults s = snd (heartbeat no_faults ?s3)"
    using t by (simp add: advance_ms_def Let_def fire_def)
  have m: "\<not> muted ?s3" using t by simp
  have n: "\<not> ctor_throws no_faults" "\<not> create_throws no_faults 0" "\<not> create_throws no_faults (Suc 0)"
    by (simp_all add: no_faults_def)
  have hb: "heartbeat no_faults ?s3 = (Normal (), ?s3\<lparr> ctx := True,
       activeOscillators := activeOscillators ?s3 @ [length (nodes ?s3), Suc (length (nodes ?s3))],
       nodes := nodes ?s3 @
         [\<lparr> v_wave = Sine, v_freq = 60, v_vol = 0.2, v_ramp = None,
            v_start = Some (currentTime ?s3 + 0), v_end = Some (currentTime ?s3 + 0 + 0.15),
            v_onended = DropActive [length (nodes ?s3)], v_ended = False \<rparr>,
          \<lparr> v_wave = Sine, v_freq = 60, v_vol = 0.2, v_ramp = None,
            v_start = Some (currentTime ?s3 + 0.15), v_end = Some (currentTime ?s3 + 0.15 + 0.15),
            v_onended = DropActive [Suc (length (nodes ?s3))], v_ended = False \<rparr>] \<rparr>)"
    by (rule heartbeat_ok) (use m n in simp_all)
  have th: "thumps ?s3 = thumps s" by simp
  show "hb_loop h (due + 800) (advance_ms no_faults s)"
    unfolding a hb using t assms by (simp add: hb_loop_def)
  show "thumps (advance_ms no_faults s) = thumps s + 2"
    unfolding a hb using th by (simp add: thumps_def)
  show "clock (advance_ms no_faults s) = clock s + 1"
    unfolding a hb using t assms by simp
qed

lemma elapse_thumps:
  assumes "hb_loop h due s"
  shows "thumps (elapse no_faults d s) = thumps s + 2 * ((clock s + d + 800 - due) div 800)"
  using assms
proof (induction d arbitrary: s due)
  case 0
  then have "clock s + 800 - due < 800" by (simp add: hb_loop_def) arith
  then show ?case by simp
next
  case (Suc d)
  show ?case
  proof (cases "clock s + 1 < due")
    case True
    note q = advance_ms_quiet [OF Suc.prems True, of no_faults]
    show ?thesis using Suc.IH [OF q(1)] q(2,3) by simp
  next
    case False
    then have e: "clock s + 1 = due" using Suc.prems by (simp add: hb_loop_def)
    note b = advance_ms_beat [OF Suc.prems e]
    have "(clock s + Suc d + 800 - due) div 800 = Suc (d div 800)"
      using e by simp
    moreover have "(clock (advance_ms no_faults s) + d + 800 - (due + 800)) div 800 = d div 800"
      using b(3) e by simp
    ultimately show ?thesis using Suc.IH [OF b(1)] b(2) by simp
  qed
qed

subsection \<open>Two runs of the heartbeat loop on a fresh engine\<close>

lemma twice_started:
  "snd (startHeartbeatLoop no_faults (snd (startHeartbeatLoop no_faults init))) =
     snd (startHeartbeatLoop no_faults init)"
  "hb_loop 1 800 (snd (startHeartbeatLoop no_faults init))"
  "thumps (snd (startHeartbeatLoop no_faults init)) = 2"
  "clock (snd (startHeartbeatLoop no_faults init)) = 0"
proof -
  have n: "\<not> truthy (heartbeatInterval init)" "\<not> muted init" "\<not> ctor_throws no_faults"
    "\<not> create_throws no_faults 0" "\<not> create_throws no_faults (Suc 0)"
    by (simp_all add: init_def no_faults_def truthy_def)
  note ok = startHeartbeatLoop_ok [of init no_faults, OF n(1,2) disjI2 [OF n(3)] n(4,5)]
  show "snd (startHeartbeatLoop no_faults (snd (startHeartbeatLoop no_faults init))) =
     snd (startHeartbeatLoop no_faults init)"
    unfolding ok by (simp add: startHeartbeatLoop_eq truthy_def)
  show "hb_loop 1 800 (snd (startHeartbeatLoop no_faults init))"
    unfolding ok by (simp add: hb_loop_def init_def)
  show "thumps (snd (startHeartbeatLoop no_faults init)) = 2"
    unfolding ok by (simp add: thumps_def init_def)
  show "clock (snd (startHeartbeatLoop no_faults init)) = 0"
    unfolding ok by (simp add: init_def)
qed

lemma twice_started_units:
  "heartbeat_units (elapse no_faults d
      (snd (startHeartbeatLoop no_faults (snd (startHeartbeatLoop no_faults init))))) = d div 800 + 1"
  using elapse_thumps [OF twice_started(2), of d]
  by (simp add: twice_started heartbeat_units_def)

lemma muted_then_unmuted:
  "hb_loop 1 800 (run [Call no_faults ToggleMute, Call no_faults StartHeartbeatLoop,
                        Call no_faults ToggleMute] init)"
  "thumps (run [Call no_faults ToggleMute, Call no_faults StartHeartbeatLoop,
                 Call no_faults ToggleMute] init) = 0"
  "clock (run [Call no_faults ToggleMute, Call no_faults StartHeartbeatLoop,
                Call no_faults ToggleMute] init) = 0"
proof -
  let ?s1 = "snd (stopAll no_faults (init\<lparr> muted := True \<rparr>))"
  have 1: "muted ?s1" "heartbeatInterval ?s1 = None" "timers ?s1 = []" "clock ?s1 = 0"
    "thumps ?s1 = 0" "timer_seq ?s1 = 0"
    by (simp_all add: stopAll_eq stopHeartbeatLoop_def stopBgMusic_def Let_def init_def thumps_def)
  have r: "run [Call no_faults ToggleMute, Call no_faults StartHeartbeatLoop,
                Call no_faults ToggleMute] init =
      ?s1\<lparr> timers := [\<lparr> t_id = Suc 0, t_cb = HeartbeatCb, t_period = 800, t_due = 800 \<rparr>],
           timer_seq := Suc 0, heartbeatInterval := Some (Suc 0), muted := False \<rparr>"
    using 1 by (simp add: run_def toggleMute_eq startHeartbeatLoop_muted truthy_def init_def)
  show "hb_loop 1 800 (run [Call no_faults ToggleMute, Call no_faults StartHeartbeatLoop,
                        Call no_faults ToggleMute] init)"
    unfolding r using 1 by (simp add: hb_loop_def)
  show "thumps (run [Call no_faults ToggleMute, Call no_faults StartHeartbeatLoop,
                 Call no_faults ToggleMute] init) = 0"
    unfolding r using 1 by simp
  show "clock (run [Call no_faults ToggleMute, Call no_faults StartHeartbeatLoop,
                Call no_faults ToggleMute] init) = 0"
    unfolding r using 1 by simp
qed

lemma muted_then_unmuted_units:
  "heartbeat_units (elapse no_faults d
      (run [Call no_faults ToggleMute, Call no_faults StartHeartbeatLoop,
            Call no_faults ToggleMute] init)) = d div 800"
  using elapse_thumps [OF muted_then_unmuted(1), of d]
  by (simp add: muted_then_unmuted heartbeat_units_def)

subsection \<open>Starting the sequencer\<close>

lemma startBgMusic_muted: "muted s \<Longrightarrow> startBgMusic f arg s = (Normal (), s)"
  by (simp add: startBgMusic_eq)

lemma startBgMusic_body_begins:
  assumes "ctx s \<or> \<not> ctor_throws f"
  shows "bgPlaying (snd (startBgMusic_body f ty s))"
    "currentMusicType (snd (startBgMusic_body f ty s)) = Type ty"
    "muted (snd (startBgMusic_body f ty s)) = muted s"
proof -
  let ?s2 = "s\<lparr> ctx := True, bgPlaying := True, currentMusicType := Type ty, bgStep := 0 \<rparr>"
  obtain c s3 where p: "playNote f ty ?s2 = (c, s3)" by (cases "playNote f ty ?s2")
  then have s3: "bgPlaying s3" "currentMusicType s3 = Type ty" "muted s3 = muted s"
    using playNote_eq_frame(1,3,9) [of f ty ?s2] by simp_all
  have e: "snd (startBgMusic_body f ty s) =
      (case c of Abrupt \<Rightarrow> s3
       | Normal u \<Rightarrow>
          s3\<lparr> timers := timers s3 @ [\<lparr> t_id = Suc (timer_seq s3), t_cb = PlayNoteCb ty,
                                     t_period = interval ty, t_due = clock s3 + interval ty \<rparr>],
              timer_seq := Suc (timer_seq s3), bgInterval := Some (Suc (timer_seq s3)) \<rparr>)"
    using assms p
    by (auto simp: startBgMusic_body_def getCtx_cases setInterval_def Let_def split: completion.splits)
  show "bgPlaying (snd (startBgMusic_body f ty s))"
    "currentMusicType (snd (startBgMusic_body f ty s)) = Type ty"
    "muted (snd (startBgMusic_body f ty s)) = muted s"
    unfolding e using s3 by (cases c; simp)+
qed

lemma startBgMusic_twice:
  assumes "ctx s \<or> \<not> ctor_throws f"
  shows "startBgMusic g arg (snd (startBgMusic f arg s)) = (Normal (), snd (startBgMusic f arg s))"
proof -
  define ty where "ty = (case arg of None \<Rightarrow> ''lobby'' | Some t \<Rightarrow> t)"
  show ?thesis
  proof (cases "muted s \<or> (bgPlaying s \<and> currentMusicType s = Type ty)")
    case True
    then have "snd (startBgMusic f arg s) = s" unfolding startBgMusic_eq ty_def by simp
    then show ?thesis using True unfolding startBgMusic_eq [of g] ty_def by simp
  next
    case False
    let ?s1 = "if bgPlaying s then snd (stopBgMusic f s) else s"
    have c: "ctx ?s1 \<or> \<not> ctor_throws f" using assms by simp
    have e: "snd (startBgMusic f arg s) = snd (startBgMusic_body f ty ?s1)"
      using False unfolding startBgMusic_eq ty_def by auto
    show ?thesis
      unfolding e startBgMusic_eq [of g] using startBgMusic_body_begins(1,2) [OF c, of ty]
      by (simp add: ty_def)
  qed
qed

lemma sequence_lengths [simp]: "length lobbySequence = 16" "length suspenseSequence = 8"
  by (simp_all add: lobbySequence_def suspenseSequence_def)

lemma playNote_lobby_ok:
  assumes "\<not> muted s" "bgPlaying s"
    "\<not> create_throws f 0" "\<not> create_throws f (Suc 0)" "\<not> create_throws f 2"
  shows "playNote f ''lobby'' s =
    (Normal (), s\<lparr> bgOscillators := bgOscillators s @ [length (nodes s), Suc (length (nodes s))],
       nodes := nodes s @
        [\<lparr> v_wave = Triangle, v_freq = lobbySequence ! (bgStep s mod 16), v_vol = 0.04, v_ramp = None,
           v_start = Some (currentTime s), v_end = Some (currentTime s + 3.0),
           v_onended = DropBg [length (nodes s), Suc (length (nodes s))], v_ended = False \<rparr>,
         \<lparr> v_wave = Triangle, v_freq = lobbySequence ! (bgStep s mod 16) * 2, v_vol = 0.04 * 0.4,
           v_ramp = None,
           v_start = Some (currentTime s), v_end = Some (currentTime s + 3.0),
           v_onended = NoHandler, v_ended = False \<rparr>,
         \<lparr> v_wave = WhiteNoise, v_freq = 0, v_vol = 0.04 * 0.2, v_ramp = None,
           v_start = Some (currentTime s), v_end = Some (currentTime s + 0.02),
           v_onended = NoHandler, v_ended = False \<rparr>],
       bgStep := bgStep s + 1 \<rparr>)"
  using assms by (simp add: playNote_def playGuitarPluck_ok sequence_def Let_def)

lemma playNote_suspense_ok:
  assumes "\<not> muted s" "bgPlaying s" "ty \<noteq> ''lobby''"
    "\<not> create_throws f 0" "\<not> create_throws f (Suc 0)"
  shows "playNote f ty s =
    (Normal (), s\<lparr> bgOscillators := bgOscillators s @ [length (nodes s)],
       nodes := nodes s @
        (\<lparr> v_wave = Sine, v_freq = suspenseSequence ! (bgStep s mod 8), v_vol = 0.05, v_ramp = None,
           v_start = Some (currentTime s), v_end = Some (currentTime s + 4.0),
           v_onended = DropBg [length (nodes s)], v_ended = False \<rparr> #
         (if bgStep s mod 4 = 0
          then [\<lparr> v_wave = Sine, v_freq = suspenseSequence ! (bgStep s mod 8) * 4, v_vol = 0.015,
                  v_ramp = None,
                  v_start = Some (currentTime s), v_end = Some (currentTime s + 4.0),
                  v_onended = NoHandler, v_ended = False \<rparr>]
          else [])),
       bgStep := bgStep s + 1 \<rparr>)"
  using assms by (simp add: playNote_def playSuspense_ok sequence_def Let_def)

lemma lobby_started:
  "snd (startBgMusic no_faults (Some ''lobby'') init) =
     init\<lparr> ctx := True, bgPlaying := True, currentMusicType := Type ''lobby'',
       bgOscillators := [0, 1],
       nodes :=
        [\<lparr> v_wave = Triangle, v_freq = 130.81, v_vol = 0.04, v_ramp = None,
           v_start = Some 0, v_end = Some 3.0,
           v_onended = DropBg [0, 1], v_ended = False \<rparr>,
         \<lparr> v_wave = Triangle, v_freq = 130.81 * 2, v_vol = 0.04 * 0.4, v_ramp = None,
           v_start = Some 0, v_end = Some 3.0,
           v_onended = NoHandler, v_ended = False \<rparr>,
         \<lparr> v_wave = WhiteNoise, v_freq = 0, v_vol = 0.04 * 0.2, v_ramp = None,
           v_start = Some 0, v_end = Some 0.02,
           v_onended = NoHandler, v_ended = False \<rparr>],
       bgStep := 1,
       timers := [\<lparr> t_id = 1, t_cb = PlayNoteCb ''lobby'', t_period = 250, t_due = 250 \<rparr>],
       timer_seq := 1, bgInterval := Some 1 \<rparr>"
proof -
  have n: "\<not> create_throws no_faults 0" "\<not> create_throws no_faults (Suc 0)" "\<not> create_throws no_faults 2"
    "\<not> ctor_throws no_faults"
    by (simp_all add: no_faults_def)
  show ?thesis
    by (simp add: startBgMusic_eq startBgMusic_body_def getCtx_cases n playNote_lobby_ok
        setInterval_def interval_def lobbySequence_def init_def currentTime_def)
qed

subsection \<open>The end of a voice\<close>






lemma currentTime_end_voice [simp]: "currentTime (end_voice i s) = currentTime s"
  by (simp add: currentTime_def)








subsection \<open>When the platform fails\<close>

lemma ctor_fails_effects:
  assumes "\<not> ctx s" "ctor_throws f"
  shows "click f s = (Normal (), s)" "correct f s = (Normal (), s)" "wrong f s = (Normal (), s)"
    "tick f s = (Normal (), s)" "heartbeat f s = (Normal (), s)" "lightBeep f s = (Normal (), s)"
    "goBurst f s = (Normal (), s)" "falseStart f s = (Normal (), s)" "fanfare f s = (Normal (), s)"
  using assms
  by (simp_all add: click_def wrong_def tick_def lightBeep_def goBurst_def falseStart_def osc_def
      osc_body_def correct_def correct_body_def heartbeat_def heartbeat_body_def fanfare_def
      fanfare_body_def try_catch_def getCtx_cases)

lemma ctor_fails_startBgMusic:
  assumes "\<not> ctx s" "ctor_throws f" "\<not> bgPlaying s"
  shows "startBgMusic f arg s = (Normal (), s)"
  using assms by (simp add: startBgMusic_eq startBgMusic_body_def getCtx_cases)

lemma create_fails_osc:
  assumes "create_throws f 0"
  shows "nodes (snd (osc f ty fr d vol r rest s)) = nodes s"
    "activeOscillators (snd (osc f ty fr d vol r rest s)) = activeOscillators s"
  using assms by (simp_all add: osc_def try_catch_def osc_body_throws getCtx_cases)

lemma toggleMute_returns: "fst (toggleMute f s) = Normal (\<not> muted s)"
  by (simp add: toggleMute_eq)

subsection \<open>Switching the mode\<close>

lemma stopBgMusic_length [simp]: "length (nodes (snd (stopBgMusic f s))) = length (nodes s)"
proof -
  have "length (waves (snd (stopBgMusic f s))) = length (waves s)" by simp
  then show ?thesis by (simp add: waves_def)
qed

lemma startBgMusic_body_suspense_ok:
  assumes "\<not> muted s" "ctx s \<or> \<not> ctor_throws f" "ty \<noteq> ''lobby''"
    "\<not> create_throws f 0" "\<not> create_throws f (Suc 0)"
  shows "startBgMusic_body f ty s =
    (Normal (), s\<lparr> ctx := True, bgPlaying := True, currentMusicType := Type ty,
       bgOscillators := bgOscillators s @ [length (nodes s)],
       nodes := nodes s @
         [\<lparr> v_wave = Sine, v_freq = suspenseSequence ! 0, v_vol = 0.05, v_ramp = None,
            v_start = Some (currentTime s), v_end = Some (currentTime s + 4.0),
            v_onended = DropBg [length (nodes s)], v_ended = False \<rparr>,
          \<lparr> v_wave = Sine, v_freq = suspenseSequence ! 0 * 4, v_vol = 0.015, v_ramp = None,
            v_start = Some (currentTime s), v_end = Some (currentTime s + 4.0),
            v_onended = NoHandler, v_ended = False \<rparr>],
       bgStep := 1,
       timers := timers s @ [\<lparr> t_id = Suc (timer_seq s), t_cb = PlayNoteCb ty, t_period = 1500,
                                t_due = clock s + 1500 \<rparr>],
       timer_seq := Suc (timer_seq s), bgInterval := Some (Suc (timer_seq s)) \<rparr>)"
  using assms
  by (simp add: startBgMusic_body_def getCtx_cases playNote_suspense_ok setInterval_def interval_def)

lemma switch_to_suspense:
  assumes "\<not> muted s" "bgPlaying s" "currentMusicType s = Type ''lobby''" "ctx s"
    "\<not> create_throws f 0" "\<not> create_throws f (Suc 0)"
  shows "snd (startBgMusic f (Some ''suspense'') s) =
     (snd (stopBgMusic f s))\<lparr> ctx := True, bgPlaying := True, currentMusicType := Type ''suspense'',
       bgOscillators := [length (nodes s)],
       nodes := nodes (snd (stopBgMusic f s)) @
         [\<lparr> v_wave = Sine, v_freq = suspenseSequence ! 0, v_vol = 0.05, v_ramp = None,
            v_start = Some (currentTime s), v_end = Some (currentTime s + 4.0),
            v_onended = DropBg [length (nodes s)], v_ended = False \<rparr>,
          \<lparr> v_wave = Sine, v_freq = suspenseSequence ! 0 * 4, v_vol = 0.015, v_ramp = None,
            v_start = Some (currentTime s), v_end = Some (currentTime s + 4.0),
            v_onended = NoHandler, v_ended = False \<rparr>],
       bgStep := 1,
       timers := timers (snd (stopBgMusic f s)) @
         [\<lparr> t_id = Suc (timer_seq s), t_cb = PlayNoteCb ''suspense'', t_period = 1500,
            t_due = clock s + 1500 \<rparr>],
       timer_seq := Suc (timer_seq s), bgInterval := Some (Suc (timer_seq s)) \<rparr>"
proof -
  let ?s1 = "snd (stopBgMusic f s)"
  have 1: "\<not> muted ?s1" "ctx ?s1 \<or> \<not> ctor_throws f" "''suspense'' \<noteq> ''lobby''"
    using assms by simp_all
  have c: "currentTime ?s1 = currentTime s" by (simp add: currentTime_def)
  show ?thesis
    using assms(1-3)
    by (simp add: startBgMusic_eq startBgMusic_body_suspense_ok [OF 1 assms(5,6)] c)
qed

lemma suspense_first_note: "suspenseSequence ! 0 = 55"
  by (simp add: suspenseSequence_def)

text \<open>The fields of the state after the switch, read off the closed form.\<close>

lemma switch_fields:
  assumes "\<not> muted s" "bgPlaying s" "currentMusicType s = Type ''lobby''" "ctx s"
    "\<not> create_throws f 0" "\<not> create_throws f (Suc 0)"
  shows "currentMusicType (snd (startBgMusic f (Some ''suspense'') s)) = Type ''suspense''"
    "bgPlaying (snd (startBgMusic f (Some ''suspense'') s))"
    "bgStep (snd (startBgMusic f (Some ''suspense'') s)) = 1"
    "bgOscillators (snd (startBgMusic f (Some ''suspense'') s)) = [length (nodes s)]"
    "activeOscillators (snd (startBgMusic f (Some ''suspense'') s)) = activeOscillators s"
    "bgInterval (snd (startBgMusic f (Some ''suspense'') s)) = Some (Suc (timer_seq s))"
    "last (timers (snd (startBgMusic f (Some ''suspense'') s))) =
       \<lparr> t_id = Suc (timer_seq s), t_cb = PlayNoteCb ''suspense'', t_period = 1500,
         t_due = clock s + 1500 \<rparr>"
    "length (nodes (snd (startBgMusic f (Some ''suspense'') s))) = length (nodes s) + 2"
    "waves (snd (startBgMusic f (Some ''suspense'') s)) = waves s @ [Sine, Sine]"
    "v_freq (nodes (snd (startBgMusic f (Some ''suspense'') s)) ! length (nodes s)) = 55"
proof -
  note e = switch_to_suspense [OF assms]
  have w: "map v_wave (nodes (snd (stopBgMusic f s))) = waves s"
    using stopBgMusic_waves [of f s] by (simp add: waves_def)
  have l: "length (nodes (snd (stopBgMusic f s))) = length (nodes s)" by simp
  show "currentMusicType (snd (startBgMusic f (Some ''suspense'') s)) = Type ''suspense''"
    "bgPlaying (snd (startBgMusic f (Some ''suspense'') s))"
    "bgStep (snd (startBgMusic f (Some ''suspense'') s)) = 1"
    "bgOscillators (snd (startBgMusic f (Some ''suspense'') s)) = [length (nodes s)]"
    "activeOscillators (snd (startBgMusic f (Some ''suspense'') s)) = activeOscillators s"
    "bgInterval (snd (startBgMusic f (Some ''suspense'') s)) = Some (Suc (timer_seq s))"
    "last (timers (snd (startBgMusic f (Some ''suspense'') s))) =
       \<lparr> t_id = Suc (timer_seq s), t_cb = PlayNoteCb ''suspense'', t_period = 1500,
         t_due = clock s + 1500 \<rparr>"
    "length (nodes (snd (startBgMusic f (Some ''suspense'') s))) = length (nodes s) + 2"
    unfolding e by simp_all
  show "waves (snd (startBgMusic f (Some ''suspense'') s)) = waves s @ [Sine, Sine]"
    unfolding e using w by simp
  show "v_freq (nodes (snd (startBgMusic f (Some ''suspense'') s)) ! length (nodes s)) = 55"
    unfolding e using l by (simp add: nth_append suspense_first_note)
qed

lemma switch_tracked:
  assumes "engine_inv s" "\<not> muted s" "bgPlaying s" "currentMusicType s = Type ''lobby''"
    "\<not> create_throws f 0" "\<not> create_throws f (Suc 0)"
  shows "\<forall>i\<in>set (activeOscillators (snd (startBgMusic f (Some ''suspense'') s)) @
                 bgOscillators (snd (startBgMusic f (Some ''suspense'') s))).
           i < length (nodes (snd (startBgMusic f (Some ''suspense'') s))) \<and>
           v_wave (nodes (snd (startBgMusic f (Some ''suspense'') s)) ! i) \<noteq> Triangle"
proof -
  define S where "S = snd (startBgMusic f (Some ''suspense'') s)"
  have c: "ctx s" using assms(1,3) by (simp add: engine_inv_def inv_sess_def)
  note fs = switch_fields [OF assms(2-4) c assms(5,6), folded S_def]
  have a: "\<forall>i\<in>set (activeOscillators s). i < length (waves s) \<and> waves s ! i \<noteq> Triangle"
    using assms(1) by (simp add: engine_inv_def inv_active_def)
  have l: "length (waves s) = length (nodes s)" by (simp add: waves_def)
  have n: "v_wave (nodes S ! i) = waves S ! i" if "i < length (nodes S)" for i
    using that by (simp add: waves_def)
  have "i < length (nodes S) \<and> v_wave (nodes S ! i) \<noteq> Triangle"
    if "i \<in> set (activeOscillators S @ bgOscillators S)" for i
  proof -
    from that consider "i \<in> set (activeOscillators s)" | "i = length (nodes s)"
      using fs(4,5) by auto
    then show ?thesis
    proof cases
      case 1
      then have i: "i < length (nodes s)" "waves s ! i \<noteq> Triangle" using a l by auto
      then have "i < length (nodes S)" using fs(8) by simp
      moreover have "waves S ! i = waves s ! i" using i(1) l fs(9) by (simp add: nth_append)
      ultimately show ?thesis using n i(2) by simp
    next
      case 2
      then have "i < length (nodes S)" using fs(8) by simp
      moreover have "waves S ! i = Sine" using 2 l fs(9) by (simp add: nth_append)
      ultimately show ?thesis using n by simp
    qed
  qed
  then show ?thesis unfolding S_def by blast
qed

subsection \<open>What a forced stop reaches\<close>

lemma length_amend [simp]: "length (amend i g xs) = length xs"
  by (simp add: amend_def)

lemma force_stop_length [simp]: "length (nodes (force_stop f j s)) = length (nodes s)"
  by (simp add: force_stop_def)

lemma force_stop_time [simp]: "currentTime (force_stop f j s) = currentTime s"
  by (simp add: currentTime_def)

lemma force_stop_other:
  assumes "i \<noteq> j"
  shows "nodes (force_stop f j s) ! i = nodes s ! i"
  using assms by (simp add: force_stop_def amend_def)

lemma force_stop_same:
  assumes "i < length (nodes s)" "\<not> v_ended (nodes s ! i)" "\<not> stop_throws f i"
  shows "v_end (nodes (force_stop f i s) ! i) = Some (currentTime s)"
    "\<not> v_ended (nodes (force_stop f i s) ! i)"
  using assms by (simp_all add: force_stop_def amend_def)

lemma force_stop_all_stopped:
  assumes "i < length (nodes s)" "\<not> v_ended (nodes s ! i)" "\<not> stop_throws f i"
    "i \<in> set ids \<or> v_end (nodes s ! i) = Some (currentTime s)"
  shows "v_end (nodes (force_stop_all f ids s) ! i) = Some (currentTime s)"
  using assms
proof (induction ids arbitrary: s)
  case Nil
  then show ?case by simp
next
  case (Cons j ids)
  let ?s1 = "force_stop f j s"
  have 1: "i < length (nodes ?s1)" using Cons.prems(1) by simp
  show ?case
  proof (cases "i = j")
    case True
    have "v_end (nodes ?s1 ! i) = Some (currentTime ?s1)" "\<not> v_ended (nodes ?s1 ! i)"
      using force_stop_same [OF Cons.prems(1-3)] True by simp_all
    then show ?thesis using Cons.IH [OF 1 _ Cons.prems(3)] by simp
  next
    case False
    then have n: "nodes ?s1 ! i = nodes s ! i" by (rule force_stop_other)
    have "i \<in> set ids \<or> v_end (nodes ?s1 ! i) = Some (currentTime ?s1)"
      using Cons.prems(4) False n by auto
    then show ?thesis using Cons.IH [OF 1 _ Cons.prems(3)] Cons.prems(2) n by simp
  qed
qed

lemma force_stop_all_untouched:
  assumes "i \<notin> set ids"
  shows "nodes (force_stop_all f ids s) ! i = nodes s ! i"
  using assms
proof (induction ids arbitrary: s)
  case Nil
  show ?case by simp
next
  case (Cons j ids)
  then show ?case using force_stop_other [of i j f s] by simp
qed

lemma force_stop_nodes_cong:
  assumes "nodes s' = nodes s" "clock s' = clock s"
  shows "nodes (force_stop f j s') = nodes (force_stop f j s)"
proof -
  have c: "currentTime s' = currentTime s" using assms(2) by (simp add: currentTime_def)
  show ?thesis by (simp add: force_stop_def c assms(1) cong: if_cong)
qed

lemma force_stop_all_nodes_cong:
  assumes "nodes s' = nodes s" "clock s' = clock s"
  shows "nodes (force_stop_all f ids s') = nodes (force_stop_all f ids s)"
  using assms
proof (induction ids arbitrary: s s')
  case Nil
  then show ?case by simp
next
  case (Cons j ids)
  have a: "nodes (force_stop f j s') = nodes (force_stop f j s)"
    using Cons.prems by (rule force_stop_nodes_cong)
  have b: "clock (force_stop f j s') = clock (force_stop f j s)"
    using Cons.prems(2) by simp
  show ?case using Cons.IH [OF a b] by simp
qed

lemma stopBgMusic_nodes:
  "nodes (snd (stopBgMusic f s)) = nodes (force_stop_all f (bgOscillators s) s)"
proof (cases "bgInterval s = None \<or> bgInterval s = Some 0")
  case True
  then show ?thesis by (auto simp: stopBgMusic_def Let_def)
next
  case False
  then obtain h where h: "bgInterval s = Some h" "h \<noteq> 0" by auto
  let ?s1 = "(clearInterval h s)\<lparr> bgInterval := None \<rparr>"
  have 1: "nodes ?s1 = nodes s" "clock ?s1 = clock s" "bgOscillators ?s1 = bgOscillators s"
    by (simp_all add: clearInterval_def)
  have "nodes (snd (stopBgMusic f s)) = nodes (force_stop_all f (bgOscillators ?s1) ?s1)"
    using h by (simp add: stopBgMusic_def Let_def)
  also have "\<dots> = nodes (force_stop_all f (bgOscillators s) s)"
    unfolding 1(3) using 1(1,2) by (rule force_stop_all_nodes_cong)
  finally show ?thesis .
qed

lemma stopBgMusic_idem:
  "stopBgMusic g (snd (stopBgMusic f s)) = (Normal (), snd (stopBgMusic f s))"
proof -
  let ?s' = "snd (stopBgMusic f s)"
  have b: "bgInterval ?s' = None \<or> bgInterval ?s' = Some 0" by (simp add: stopBgMusic_handle)
  have r: "bgOscillators ?s' = []" "bgPlaying ?s' = False" "currentMusicType ?s' = Null" by simp_all
  have "t\<lparr> bgOscillators := [], bgPlaying := False, currentMusicType := Null \<rparr> = t"
    if "bgOscillators t = []" "bgPlaying t = False" "currentMusicType t = Null" for t :: engine
    using that by (cases t) simp
  then have e: "?s'\<lparr> bgOscillators := [], bgPlaying := False, currentMusicType := Null \<rparr> = ?s'"
    using r by blast
  show ?thesis
    using b r e by (auto simp: stopBgMusic_def [of g] Let_def)
qed

subsection \<open>The effects that delay their voices\<close>






section \<open>The claims\<close>

text \<open>
  C1. Whatever the page has called before and however much time has passed, with any
  platform faults along the way, \<open>stopAll()\<close> returns normally and leaves both registries
  empty, both interval handles \<open>null\<close>, the sequencer not playing with mode \<open>null\<close>, and
  no timer installed.
\<close>

theorem stopAll_leaves_nothing:
  "fst (stopAll f (run es init)) = Normal () \<and>
   activeOscillators (snd (stopAll f (run es init))) = [] \<and>
   bgOscillators (snd (stopAll f (run es init))) = [] \<and>
   heartbeatInterval (snd (stopAll f (run es init))) = None \<and>
   bgInterval (snd (stopAll f (run es init))) = None \<and>
   \<not> bgPlaying (snd (stopAll f (run es init))) \<and>
   currentMusicType (snd (stopAll f (run es init))) = Null \<and>
   timers (snd (stopAll f (run es init))) = []"
proof -
  have i: "inv_sess (run es init)" using run_inv [of es] by (simp add: engine_inv_def)
  then have "heartbeatInterval (run es init) \<noteq> Some 0" "bgInterval (run es init) \<noteq> Some 0"
    by (simp_all add: inv_sess_def)
  then show ?thesis
    using stopAll_timers [OF i, of f] by (simp add: stopAll_handles) (simp add: stopAll_eq)
qed

theorem stopAll_leaves_nothing_witness:
  "timers (run [Call no_faults StartHeartbeatLoop] init) \<noteq> [] \<and>
   heartbeatInterval (run [Call no_faults StartHeartbeatLoop] init) = Some 1 \<and>
   fst (stopAll no_faults (run [Call no_faults StartHeartbeatLoop] init)) = Normal () \<and>
   activeOscillators (snd (stopAll no_faults (run [Call no_faults StartHeartbeatLoop] init))) = [] \<and>
   heartbeatInterval (snd (stopAll no_faults (run [Call no_faults StartHeartbeatLoop] init))) = None \<and>
   timers (snd (stopAll no_faults (run [Call no_faults StartHeartbeatLoop] init))) = []"
proof -
  have "timers (run [Call no_faults StartHeartbeatLoop] init) \<noteq> []"
    "heartbeatInterval (run [Call no_faults StartHeartbeatLoop] init) = Some 1"
    by (simp_all add: run_def startHeartbeatLoop_eq truthy_def init_def)
  then show ?thesis
    using stopAll_leaves_nothing [of no_faults "[Call no_faults StartHeartbeatLoop]"] by simp
qed

text \<open>
  C6. \<open>toggleMute()\<close> returns the flipped flag and stores it; called on a reachable
  unmuted engine it leaves both registries empty, both handles \<open>null\<close>, the sequencer not
  playing and no timer installed.
\<close>

theorem toggleMute_flips_and_silences:
  "fst (toggleMute f s) = Normal (\<not> muted s) \<and>
   muted (snd (toggleMute f s)) = (\<not> muted s) \<and>
   (\<not> muted (run es init) \<longrightarrow>
      muted (snd (toggleMute f (run es init))) \<and>
      activeOscillators (snd (toggleMute f (run es init))) = [] \<and>
      bgOscillators (snd (toggleMute f (run es init))) = [] \<and>
      heartbeatInterval (snd (toggleMute f (run es init))) = None \<and>
      bgInterval (snd (toggleMute f (run es init))) = None \<and>
      \<not> bgPlaying (snd (toggleMute f (run es init))) \<and>
      timers (snd (toggleMute f (run es init))) = [])"
proof -
  have 1: "fst (toggleMute f s) = Normal (\<not> muted s)" "muted (snd (toggleMute f s)) = (\<not> muted s)"
    by (simp_all add: toggleMute_eq)
  have i: "inv_sess ((run es init)\<lparr> muted := True \<rparr>)"
    using run_inv [of es] by (simp add: engine_inv_def)
  then have h: "heartbeatInterval (run es init) \<noteq> Some 0" "bgInterval (run es init) \<noteq> Some 0"
    by (simp_all add: inv_sess_def)
  have "timers (snd (stopAll f ((run es init)\<lparr> muted := True \<rparr>))) = []"
    using i by (rule stopAll_timers)
  then show ?thesis using 1 h by (simp add: toggleMute_eq stopAll_handles)
qed

theorem toggleMute_flips_and_silences_witness:
  "\<not> muted (run [Call no_faults StartHeartbeatLoop] init) \<and>
   timers (run [Call no_faults StartHeartbeatLoop] init) \<noteq> [] \<and>
   fst (toggleMute no_faults (run [Call no_faults StartHeartbeatLoop] init)) = Normal True \<and>
   muted (snd (toggleMute no_faults (run [Call no_faults StartHeartbeatLoop] init))) \<and>
   activeOscillators (snd (toggleMute no_faults (run [Call no_faults StartHeartbeatLoop] init))) = [] \<and>
   heartbeatInterval (snd (toggleMute no_faults (run [Call no_faults StartHeartbeatLoop] init))) = None \<and>
   timers (snd (toggleMute no_faults (run [Call no_faults StartHeartbeatLoop] init))) = []"
proof -
  have a: "\<not> muted (run [Call no_faults StartHeartbeatLoop] init)"
    "timers (run [Call no_faults StartHeartbeatLoop] init) \<noteq> []"
    using grows_fields(1) [OF heartbeat_grows [of init no_faults]]
    by (simp_all add: run_def startHeartbeatLoop_eq truthy_def init_def)
  show ?thesis
    using a toggleMute_flips_and_silences [of no_faults "run [Call no_faults StartHeartbeatLoop] init"
        "[Call no_faults StartHeartbeatLoop]"]
    by simp
qed

text \<open>
  C7. On a muted engine each of the nine one-shot effects returns at once and leaves the
  whole state as it was (so it creates no node and registers nothing); and in every
  reachable state that is muted the effect registry is empty.
\<close>

theorem muted_effects_are_silent:
  "(muted s \<longrightarrow>
      click f s = (Normal (), s) \<and> correct f s = (Normal (), s) \<and> wrong f s = (Normal (), s) \<and>
      tick f s = (Normal (), s) \<and> heartbeat f s = (Normal (), s) \<and> lightBeep f s = (Normal (), s) \<and>
      goBurst f s = (Normal (), s) \<and> falseStart f s = (Normal (), s) \<and> fanfare f s = (Normal (), s)) \<and>
   (muted (run es init) \<longrightarrow> activeOscillators (run es init) = [])"
proof -
  have "muted (run es init) \<longrightarrow> activeOscillators (run es init) = []"
    using run_inv [of es] by (simp add: engine_inv_def inv_mute_def)
  then show ?thesis by (simp add: effect_muted)
qed

theorem muted_effects_are_silent_witness:
  "muted (init\<lparr> muted := True \<rparr>) \<and>
   click no_faults (init\<lparr> muted := True \<rparr>) = (Normal (), init\<lparr> muted := True \<rparr>) \<and>
   fanfare no_faults (init\<lparr> muted := True \<rparr>) = (Normal (), init\<lparr> muted := True \<rparr>) \<and>
   muted (run [Call no_faults Click, Call no_faults ToggleMute, Call no_faults Fanfare] init) \<and>
   activeOscillators (run [Call no_faults Click, Call no_faults ToggleMute, Call no_faults Fanfare] init) = []"
proof -
  have a: "muted (run [Call no_faults Click, Call no_faults ToggleMute, Call no_faults Fanfare] init)"
    using grows_fields(1) [OF click_grows [of init no_faults]]
    by (simp add: run_def toggleMute_eq effect_muted init_def)
  show ?thesis
    using a muted_effects_are_silent [of "init\<lparr> muted := True \<rparr>" no_faults
        "[Call no_faults Click, Call no_faults ToggleMute, Call no_faults Fanfare]"]
    by simp
qed

text \<open>
  C4. \<open>startBgMusic\<close> with the mode that is playing returns at once and leaves the whole
  state as it was: the timers, the step cursor and the registries with it. Hence a
  second call right after a first one that could acquire the context changes nothing,
  whatever the platform does during either call.
\<close>

theorem startBgMusic_same_mode_noop:
  "(bgPlaying s \<and> currentMusicType s = Type (case arg of None \<Rightarrow> ''lobby'' | Some t \<Rightarrow> t) \<longrightarrow>
      startBgMusic f arg s = (Normal (), s)) \<and>
   (ctx s \<or> \<not> ctor_throws f \<longrightarrow>
      startBgMusic g arg (snd (startBgMusic f arg s)) = (Normal (), snd (startBgMusic f arg s)))"
proof (intro conjI impI)
  assume "bgPlaying s \<and> currentMusicType s = Type (case arg of None \<Rightarrow> ''lobby'' | Some t \<Rightarrow> t)"
  then show "startBgMusic f arg s = (Normal (), s)" by (simp add: startBgMusic_eq)
next
  assume "ctx s \<or> \<not> ctor_throws f"
  then show "startBgMusic g arg (snd (startBgMusic f arg s)) = (Normal (), snd (startBgMusic f arg s))"
    by (rule startBgMusic_twice)
qed

theorem startBgMusic_same_mode_noop_witness:
  "bgPlaying (snd (startBgMusic no_faults (Some ''lobby'') init)) \<and>
   currentMusicType (snd (startBgMusic no_faults (Some ''lobby'') init)) = Type ''lobby'' \<and>
   length (timers (snd (startBgMusic no_faults (Some ''lobby'') init))) = 1 \<and>
   bgStep (snd (startBgMusic no_faults (Some ''lobby'') init)) = 1 \<and>
   startBgMusic no_faults (Some ''lobby'') (snd (startBgMusic no_faults (Some ''lobby'') init)) =
     (Normal (), snd (startBgMusic no_faults (Some ''lobby'') init)) \<and>
   \<not> ctor_throws no_faults \<and>
   startBgMusic no_faults None (snd (startBgMusic no_faults None init)) =
     (Normal (), snd (startBgMusic no_faults None init))"
proof -
  have a: "bgPlaying (snd (startBgMusic no_faults (Some ''lobby'') init))"
    "currentMusicType (snd (startBgMusic no_faults (Some ''lobby'') init)) = Type ''lobby''"
    "length (timers (snd (startBgMusic no_faults (Some ''lobby'') init))) = 1"
    "bgStep (snd (startBgMusic no_faults (Some ''lobby'') init)) = 1"
    unfolding lobby_started by simp_all
  have n: "\<not> ctor_throws no_faults" by (simp add: no_faults_def)
  show ?thesis
    using a n
      startBgMusic_same_mode_noop [of "snd (startBgMusic no_faults (Some ''lobby'') init)"
        "Some ''lobby''" no_faults no_faults]
      startBgMusic_same_mode_noop [of init None no_faults no_faults]
    by simp
qed

text \<open>
  C5. \<open>startHeartbeatLoop()\<close> on a running heartbeat session changes nothing. On a
  stopped session of an unmuted engine whose platform does not fail, it creates the two
  thumps of one unit at \<open>currentTime\<close> and \<open>currentTime + 0.15\<close> and appends one timer with
  period 800. After two calls in a row on a fresh engine, \<open>d div 800 + 1\<close> units have been
  created once \<open>d\<close> ms have passed; over the window of the instants \<open>0 \<le> t < 4000\<close>
  (any \<open>d\<close> from 3200 up to 3999) that is five. The callback that is due at the instant
  4000 itself creates the sixth.
\<close>

theorem startHeartbeatLoop_single_trigger:
  "(truthy (heartbeatInterval s) \<longrightarrow> startHeartbeatLoop f s = (Normal (), s)) \<and>
   (\<not> truthy (heartbeatInterval s) \<and> \<not> muted s \<and> (ctx s \<or> \<not> ctor_throws f) \<and>
    \<not> create_throws f 0 \<and> \<not> create_throws f (Suc 0) \<longrightarrow>
      startHeartbeatLoop f s =
        (Normal (), s\<lparr> ctx := True,
           activeOscillators := activeOscillators s @ [length (nodes s), Suc (length (nodes s))],
           nodes := nodes s @
             [\<lparr> v_wave = Sine, v_freq = 60, v_vol = 0.2, v_ramp = None,
                v_start = Some (currentTime s + 0), v_end = Some (currentTime s + 0 + 0.15),
                v_onended = DropActive [length (nodes s)], v_ended = False \<rparr>,
              \<lparr> v_wave = Sine, v_freq = 60, v_vol = 0.2, v_ramp = None,
                v_start = Some (currentTime s + 0.15), v_end = Some (currentTime s + 0.15 + 0.15),
                v_onended = DropActive [Suc (length (nodes s))], v_ended = False \<rparr>],
           timers := timers s @ [\<lparr> t_id = Suc (timer_seq s), t_cb = HeartbeatCb, t_period = 800,
                                    t_due = clock s + 800 \<rparr>],
           timer_seq := Suc (timer_seq s),
           heartbeatInterval := Some (Suc (timer_seq s)) \<rparr>)) \<and>
   heartbeat_units (elapse no_faults d
      (snd (startHeartbeatLoop no_faults (snd (startHeartbeatLoop no_faults init))))) = d div 800 + 1 \<and>
   (3200 \<le> d \<and> d < 4000 \<longrightarrow>
      heartbeat_units (elapse no_faults d
        (snd (startHeartbeatLoop no_faults (snd (startHeartbeatLoop no_faults init))))) = 5)"
proof -
  have "d div 800 = 4" if "3200 \<le> d" "d < 4000"
    using that by simp
  then show ?thesis
    by (simp add: startHeartbeatLoop_ok twice_started_units) (simp add: startHeartbeatLoop_eq)
qed

theorem startHeartbeatLoop_single_trigger_witness:
  "truthy (heartbeatInterval (snd (startHeartbeatLoop no_faults init))) \<and>
   startHeartbeatLoop no_faults (snd (startHeartbeatLoop no_faults init)) =
     (Normal (), snd (startHeartbeatLoop no_faults init)) \<and>
   \<not> truthy (heartbeatInterval init) \<and> \<not> muted init \<and> \<not> ctor_throws no_faults \<and>
   \<not> create_throws no_faults 0 \<and> \<not> create_throws no_faults (Suc 0) \<and>
   length (timers (snd (startHeartbeatLoop no_faults init))) = 1 \<and>
   length (nodes (snd (startHeartbeatLoop no_faults init))) = 2 \<and>
   (3200::nat) \<le> 3999 \<and> (3999::nat) < 4000 \<and>
   heartbeat_units (elapse no_faults 3999
      (snd (startHeartbeatLoop no_faults (snd (startHeartbeatLoop no_faults init))))) = 5 \<and>
   heartbeat_units (elapse no_faults 4000
      (snd (startHeartbeatLoop no_faults (snd (startHeartbeatLoop no_faults init))))) = 6"
proof -
  have n: "\<not> truthy (heartbeatInterval init)" "\<not> muted init" "\<not> ctor_throws no_faults"
    "\<not> create_throws no_faults 0" "\<not> create_throws no_faults (Suc 0)"
    by (simp_all add: init_def no_faults_def truthy_def)
  have 1: "snd (startHeartbeatLoop no_faults init) =
      init\<lparr> ctx := True, activeOscillators := [0, 1],
        nodes :=
          [\<lparr> v_wave = Sine, v_freq = 60, v_vol = 0.2, v_ramp = None,
             v_start = Some 0, v_end = Some 0.15,
             v_onended = DropActive [0], v_ended = False \<rparr>,
           \<lparr> v_wave = Sine, v_freq = 60, v_vol = 0.2, v_ramp = None,
             v_start = Some 0.15, v_end = Some 0.3,
             v_onended = DropActive [1], v_ended = False \<rparr>],
        timers := [\<lparr> t_id = 1, t_cb = HeartbeatCb, t_period = 800, t_due = 800 \<rparr>],
        timer_seq := 1, heartbeatInterval := Some 1 \<rparr>"
    using n startHeartbeatLoop_single_trigger [of init no_faults 0]
    by (simp add: init_def currentTime_def)
  have t: "truthy (heartbeatInterval (snd (startHeartbeatLoop no_faults init)))"
    "length (timers (snd (startHeartbeatLoop no_faults init))) = 1"
    "length (nodes (snd (startHeartbeatLoop no_faults init))) = 2"
    unfolding 1 by (simp_all add: truthy_def)
  have w1: "startHeartbeatLoop no_faults (snd (startHeartbeatLoop no_faults init)) =
     (Normal (), snd (startHeartbeatLoop no_faults init))"
    using t(1)
      startHeartbeatLoop_single_trigger [of "snd (startHeartbeatLoop no_faults init)" no_faults 3999,
        THEN conjunct1]
    by blast
  have w2: "heartbeat_units (elapse no_faults 3999
      (snd (startHeartbeatLoop no_faults (snd (startHeartbeatLoop no_faults init))))) = 5"
    using startHeartbeatLoop_single_trigger [of init no_faults 3999,
        THEN conjunct2, THEN conjunct2, THEN conjunct2]
    by simp
  have w3: "heartbeat_units (elapse no_faults 4000
      (snd (startHeartbeatLoop no_faults (snd (startHeartbeatLoop no_faults init))))) = 6"
    using startHeartbeatLoop_single_trigger [of init no_faults 4000,
        THEN conjunct2, THEN conjunct2, THEN conjunct1]
    by simp
  show ?thesis
    using n t w1 w2 w3 by (intro conjI) simp_all
qed

text \<open>
  C10. On a muted engine with no heartbeat session, \<open>startHeartbeatLoop()\<close> creates no
  node but installs the 800 ms timer and stores its handle, while \<open>startBgMusic\<close> returns
  at once and leaves the state as it was. After mute, \<open>startHeartbeatLoop()\<close>, unmute on
  a fresh engine, the timer alone makes the units: \<open>d div 800\<close> of them once \<open>d\<close> ms have
  passed.
\<close>

theorem muted_start_installs_heartbeat_only:
  "(muted s \<and> \<not> truthy (heartbeatInterval s) \<longrightarrow>
      startHeartbeatLoop f s =
        (Normal (), s\<lparr> timers := timers s @ [\<lparr> t_id = Suc (timer_seq s), t_cb = HeartbeatCb,
                                               t_period = 800, t_due = clock s + 800 \<rparr>],
                      timer_seq := Suc (timer_seq s),
                      heartbeatInterval := Some (Suc (timer_seq s)) \<rparr>) \<and>
      truthy (heartbeatInterval (snd (startHeartbeatLoop f s)))) \<and>
   (muted s \<longrightarrow> startBgMusic f arg s = (Normal (), s)) \<and>
   heartbeat_units (elapse no_faults d
      (run [Call no_faults ToggleMute, Call no_faults StartHeartbeatLoop,
            Call no_faults ToggleMute] init)) = d div 800"
  by (simp add: startHeartbeatLoop_muted startBgMusic_muted muted_then_unmuted_units truthy_def)

theorem muted_start_installs_heartbeat_only_witness:
  "muted (init\<lparr> muted := True \<rparr>) \<and> \<not> truthy (heartbeatInterval (init\<lparr> muted := True \<rparr>)) \<and>
   nodes (snd (startHeartbeatLoop no_faults (init\<lparr> muted := True \<rparr>))) = [] \<and>
   timers (snd (startHeartbeatLoop no_faults (init\<lparr> muted := True \<rparr>))) =
     [\<lparr> t_id = 1, t_cb = HeartbeatCb, t_period = 800, t_due = 800 \<rparr>] \<and>
   heartbeatInterval (snd (startHeartbeatLoop no_faults (init\<lparr> muted := True \<rparr>))) = Some 1 \<and>
   startBgMusic no_faults (Some ''lobby'') (init\<lparr> muted := True \<rparr>) =
     (Normal (), init\<lparr> muted := True \<rparr>) \<and>
   heartbeat_units (elapse no_faults 799
      (run [Call no_faults ToggleMute, Call no_faults StartHeartbeatLoop,
            Call no_faults ToggleMute] init)) = 0 \<and>
   heartbeat_units (elapse no_faults 800
      (run [Call no_faults ToggleMute, Call no_faults StartHeartbeatLoop,
            Call no_faults ToggleMute] init)) = 1"
proof -
  have a: "muted (init\<lparr> muted := True \<rparr>)" "\<not> truthy (heartbeatInterval (init\<lparr> muted := True \<rparr>))"
    by (simp_all add: init_def truthy_def)
  show ?thesis
    using a
      muted_start_installs_heartbeat_only [of "init\<lparr> muted := True \<rparr>" no_faults "Some ''lobby''" 799]
      muted_start_installs_heartbeat_only [of "init\<lparr> muted := True \<rparr>" no_faults "Some ''lobby''" 800]
    by (simp add: init_def)
qed




text \<open>
  C8, as the code has it. Whatever the platform throws, every public method returns
  normally: no exception reaches the caller. When no context can be created, each of
  the nine effects leaves the engine as it was, and so does \<open>startBgMusic\<close> when no session
  is playing. When the node cannot be created, \<open>osc\<close> creates and registers nothing.
\<close>

theorem failures_never_reach_the_caller:
  "fst (perform f c s) = Normal () \<and>
   fst (toggleMute f s) = Normal (\<not> muted s) \<and>
   (\<not> ctx s \<and> ctor_throws f \<longrightarrow>
      click f s = (Normal (), s) \<and> correct f s = (Normal (), s) \<and> wrong f s = (Normal (), s) \<and>
      tick f s = (Normal (), s) \<and> heartbeat f s = (Normal (), s) \<and> lightBeep f s = (Normal (), s) \<and>
      goBurst f s = (Normal (), s) \<and> falseStart f s = (Normal (), s) \<and> fanfare f s = (Normal (), s) \<and>
      (\<not> bgPlaying s \<longrightarrow> startBgMusic f arg s = (Normal (), s))) \<and>
   (create_throws f 0 \<longrightarrow>
      nodes (snd (osc f ty fr d vol r rest s)) = nodes s \<and>
      activeOscillators (snd (osc f ty fr d vol r rest s)) = activeOscillators s)"
  by (simp add: perform_returns toggleMute_returns ctor_fails_effects ctor_fails_startBgMusic
      create_fails_osc)

theorem failures_never_reach_the_caller_witness:
  "\<not> ctx init \<and> ctor_throws no_audio \<and> \<not> bgPlaying init \<and> create_throws no_audio 0 \<and>
   fst (perform no_audio Fanfare init) = Normal () \<and>
   fst (perform no_synthesis (StartBgMusic (Some ''lobby'')) init) = Normal () \<and>
   click no_audio init = (Normal (), init) \<and>
   fanfare no_audio init = (Normal (), init) \<and>
   startBgMusic no_audio (Some ''lobby'') init = (Normal (), init) \<and>
   nodes (snd (osc no_audio Sine 1000 0.05 None None [] init)) = nodes init \<and>
   activeOscillators (snd (osc no_audio Sine 1000 0.05 None None [] init)) = activeOscillators init"
proof -
  have a: "\<not> ctx init" "ctor_throws no_audio" "\<not> bgPlaying init" "create_throws no_audio 0"
    by (simp_all add: init_def no_audio_def)
  show ?thesis
    using a
      failures_never_reach_the_caller [of no_audio Fanfare init "Some ''lobby''" Sine 1000 "0.05" None
        None "[]"]
      failures_never_reach_the_caller [of no_synthesis "StartBgMusic (Some ''lobby'')" init
        "Some ''lobby''" Sine 1000 "0.05" None None "[]", THEN conjunct1]
    by simp
qed

text \<open>
  C8 as stated fails: a failed call is not always without effect. On a platform that
  gives a context but no source node, \<open>startBgMusic('lobby')\<close> on a fresh engine returns
  normally, yet has set \<open>bgPlaying\<close> and the mode, with no timer installed; a later
  \<open>startBgMusic('lobby')\<close> on a platform that works is then ignored.
\<close>

theorem failed_start_is_no_noop_counterexample:
  "fst (startBgMusic no_synthesis (Some ''lobby'') init) = Normal () \<and>
   snd (startBgMusic no_synthesis (Some ''lobby'') init) =
     init\<lparr> ctx := True, bgPlaying := True, currentMusicType := Type ''lobby'' \<rparr> \<and>
   snd (startBgMusic no_synthesis (Some ''lobby'') init) \<noteq> init \<and>
   timers (snd (startBgMusic no_synthesis (Some ''lobby'') init)) = [] \<and>
   startBgMusic no_faults (Some ''lobby'') (snd (startBgMusic no_synthesis (Some ''lobby'') init)) =
     (Normal (), snd (startBgMusic no_synthesis (Some ''lobby'') init))"
proof -
  have e: "startBgMusic no_synthesis (Some ''lobby'') init =
      (Normal (), init\<lparr> ctx := True, bgPlaying := True, currentMusicType := Type ''lobby'' \<rparr>)"
    by (simp add: startBgMusic_eq startBgMusic_body_def getCtx_cases playNote_def playGuitarPluck_def
        createSource_def Let_def no_synthesis_def init_def)
  have n: "init\<lparr> ctx := True, bgPlaying := True, currentMusicType := Type ''lobby'' \<rparr> \<noteq> init"
  proof
    assume "init\<lparr> ctx := True, bgPlaying := True, currentMusicType := Type ''lobby'' \<rparr> = init"
    then have "bgPlaying (init\<lparr> ctx := True, bgPlaying := True, currentMusicType := Type ''lobby'' \<rparr>)
        = bgPlaying init" by simp
    then show False by (simp add: init_def)
  qed
  show ?thesis
    unfolding e using n by (simp add: startBgMusic_eq) (simp add: init_def)
qed

text \<open>
  C3, as the code has it. On a reachable, unmuted engine whose sequencer plays the lobby,
  with a platform that creates the two nodes, \<open>startBgMusic('suspense')\<close> leaves the mode
  \<open>suspense\<close> and the sequencer playing; the cursor was reset to 0 and step 0 was played
  at once, so the cursor reads 1 and the background registry holds exactly the new
  drone, a sine at 55 Hz (the first value of the suspense sequence); the effect registry
  is as before; no node in either registry is a triangle (a pluck); the new handle
  names a timer of period 1500 that runs the suspense closure.
\<close>

theorem switch_to_suspense_plays_step_zero:
  "\<not> muted (run es init) \<and> bgPlaying (run es init) \<and>
   currentMusicType (run es init) = Type ''lobby'' \<and>
   \<not> create_throws f 0 \<and> \<not> create_throws f (Suc 0) \<longrightarrow>
     currentMusicType (snd (startBgMusic f (Some ''suspense'') (run es init))) = Type ''suspense'' \<and>
     bgPlaying (snd (startBgMusic f (Some ''suspense'') (run es init))) \<and>
     bgStep (snd (startBgMusic f (Some ''suspense'') (run es init))) = 1 \<and>
     bgOscillators (snd (startBgMusic f (Some ''suspense'') (run es init))) =
       [length (nodes (run es init))] \<and>
     v_freq (nodes (snd (startBgMusic f (Some ''suspense'') (run es init))) !
               length (nodes (run es init))) = 55 \<and>
     activeOscillators (snd (startBgMusic f (Some ''suspense'') (run es init))) =
       activeOscillators (run es init) \<and>
     (\<forall>i\<in>set (activeOscillators (snd (startBgMusic f (Some ''suspense'') (run es init))) @
              bgOscillators (snd (startBgMusic f (Some ''suspense'') (run es init)))).
        i < length (nodes (snd (startBgMusic f (Some ''suspense'') (run es init)))) \<and>
        v_wave (nodes (snd (startBgMusic f (Some ''suspense'') (run es init))) ! i) \<noteq> Triangle) \<and>
     bgInterval (snd (startBgMusic f (Some ''suspense'') (run es init))) =
       Some (Suc (timer_seq (run es init))) \<and>
     last (timers (snd (startBgMusic f (Some ''suspense'') (run es init)))) =
       \<lparr> t_id = Suc (timer_seq (run es init)), t_cb = PlayNoteCb ''suspense'', t_period = 1500,
         t_due = clock (run es init) + 1500 \<rparr>"
proof (intro impI)
  assume h: "\<not> muted (run es init) \<and> bgPlaying (run es init) \<and>
   currentMusicType (run es init) = Type ''lobby'' \<and>
   \<not> create_throws f 0 \<and> \<not> create_throws f (Suc 0)"
  have i: "engine_inv (run es init)" by (rule run_inv)
  then have c: "ctx (run es init)" using h by (simp add: engine_inv_def inv_sess_def)
  have h': "\<not> muted (run es init)" "bgPlaying (run es init)"
    "currentMusicType (run es init) = Type ''lobby''"
    "\<not> create_throws f 0" "\<not> create_throws f (Suc 0)"
    using h by simp_all
  note fs = switch_fields [OF h'(1-3) c h'(4,5)]
  note tr = switch_tracked [OF i h']
  show "currentMusicType (snd (startBgMusic f (Some ''suspense'') (run es init))) = Type ''suspense'' \<and>
     bgPlaying (snd (startBgMusic f (Some ''suspense'') (run es init))) \<and>
     bgStep (snd (startBgMusic f (Some ''suspense'') (run es init))) = 1 \<and>
     bgOscillators (snd (startBgMusic f (Some ''suspense'') (run es init))) =
       [length (nodes (run es init))] \<and>
     v_freq (nodes (snd (startBgMusic f (Some ''suspense'') (run es init))) !
               length (nodes (run es init))) = 55 \<and>
     activeOscillators (snd (startBgMusic f (Some ''suspense'') (run es init))) =
       activeOscillators (run es init) \<and>
     (\<forall>i\<in>set (activeOscillators (snd (startBgMusic f (Some ''suspense'') (run es init))) @
              bgOscillators (snd (startBgMusic f (Some ''suspense'') (run es init)))).
        i < length (nodes (snd (startBgMusic f (Some ''suspense'') (run es init)))) \<and>
        v_wave (nodes (snd (startBgMusic f (Some ''suspense'') (run es init))) ! i) \<noteq> Triangle) \<and>
     bgInterval (snd (startBgMusic f (Some ''suspense'') (run es init))) =
       Some (Suc (timer_seq (run es init))) \<and>
     last (timers (snd (startBgMusic f (Some ''suspense'') (run es init)))) =
       \<lparr> t_id = Suc (timer_seq (run es init)), t_cb = PlayNoteCb ''suspense'', t_period = 1500,
         t_due = clock (run es init) + 1500 \<rparr>"
    using fs(1-7,10) tr by (intro conjI)
qed

lemma lobby_run:
  "run [Call no_faults (StartBgMusic (Some ''lobby''))] init =
     snd (startBgMusic no_faults (Some ''lobby'') init)"
  by (simp add: run_def)

theorem switch_to_suspense_plays_step_zero_witness:
  "\<not> muted (run [Call no_faults (StartBgMusic (Some ''lobby''))] init) \<and>
   bgPlaying (run [Call no_faults (StartBgMusic (Some ''lobby''))] init) \<and>
   currentMusicType (run [Call no_faults (StartBgMusic (Some ''lobby''))] init) = Type ''lobby'' \<and>
   \<not> create_throws no_faults 0 \<and> \<not> create_throws no_faults (Suc 0) \<and>
   bgOscillators (run [Call no_faults (StartBgMusic (Some ''lobby''))] init) = [0, 1] \<and>
   currentMusicType (snd (startBgMusic no_faults (Some ''suspense'')
      (run [Call no_faults (StartBgMusic (Some ''lobby''))] init))) = Type ''suspense'' \<and>
   bgStep (snd (startBgMusic no_faults (Some ''suspense'')
      (run [Call no_faults (StartBgMusic (Some ''lobby''))] init))) = 1 \<and>
   bgOscillators (snd (startBgMusic no_faults (Some ''suspense'')
      (run [Call no_faults (StartBgMusic (Some ''lobby''))] init))) = [3] \<and>
   bgInterval (snd (startBgMusic no_faults (Some ''suspense'')
      (run [Call no_faults (StartBgMusic (Some ''lobby''))] init))) = Some 2"
proof -
  let ?s = "run [Call no_faults (StartBgMusic (Some ''lobby''))] init"
  have a: "\<not> muted ?s" "bgPlaying ?s" "currentMusicType ?s = Type ''lobby''"
    "bgOscillators ?s = [0, 1]" "length (nodes ?s) = 3" "timer_seq ?s = 1"
    unfolding lobby_run lobby_started by (simp_all add: init_def)
  have n: "\<not> create_throws no_faults 0" "\<not> create_throws no_faults (Suc 0)"
    by (simp_all add: no_faults_def)
  have t: "currentMusicType (snd (startBgMusic no_faults (Some ''suspense'') ?s)) = Type ''suspense''"
    "bgStep (snd (startBgMusic no_faults (Some ''suspense'') ?s)) = 1"
    "bgOscillators (snd (startBgMusic no_faults (Some ''suspense'') ?s)) = [length (nodes ?s)]"
    "bgInterval (snd (startBgMusic no_faults (Some ''suspense'') ?s)) = Some (Suc (timer_seq ?s))"
    using a(1-3) n
      switch_to_suspense_plays_step_zero [of "[Call no_faults (StartBgMusic (Some ''lobby''))]" no_faults]
    by blast+
  show ?thesis
    using a(1-4) n t [unfolded a(5,6)] by (intro conjI) simp_all
qed

text \<open>
  C3 as stated fails: after \<open>startBgMusic('lobby')\<close> and \<open>startBgMusic('suspense')\<close> on a
  fresh engine the step cursor of the resulting state is 1, not 0.
\<close>

theorem switch_cursor_counterexample:
  "\<not> (currentMusicType (snd (startBgMusic no_faults (Some ''suspense'')
          (snd (startBgMusic no_faults (Some ''lobby'') init)))) = Type ''suspense'' \<and>
      bgStep (snd (startBgMusic no_faults (Some ''suspense'')
          (snd (startBgMusic no_faults (Some ''lobby'') init)))) = 0)"
proof -
  let ?s = "snd (startBgMusic no_faults (Some ''lobby'') init)"
  have a: "\<not> muted ?s" "bgPlaying ?s" "currentMusicType ?s = Type ''lobby''" "ctx ?s"
    unfolding lobby_started by (simp_all add: init_def)
  have n: "\<not> create_throws no_faults 0" "\<not> create_throws no_faults (Suc 0)"
    by (simp_all add: no_faults_def)
  have "bgStep (snd (startBgMusic no_faults (Some ''suspense'') ?s)) = 1"
    using switch_fields(3) [OF a n] .
  then show ?thesis by simp
qed

text \<open>
  C2, as the code has it. \<open>stopBgMusic()\<close> returns normally; it clears the interval the
  handle names and sets the handle to \<open>null\<close>; every node of the background registry
  that has not ended, and whose \<open>stop()\<close> does not throw, ends at \<open>currentTime\<close>; a noise
  burst, which is never in the registry, is left as it is and ends with its buffer;
  the registry is emptied, \<open>bgPlaying\<close> is false and the mode \<open>null\<close>; and a second call
  changes nothing.
\<close>

theorem stopBgMusic_stops_the_registry:
  "fst (stopBgMusic f s) = Normal () \<and>
   bgInterval (snd (stopBgMusic f s)) = (if bgInterval s = Some 0 then Some 0 else None) \<and>
   timers (snd (stopBgMusic f s)) =
     (case bgInterval s of None \<Rightarrow> timers s
      | Some h \<Rightarrow> if h \<noteq> 0 then filter (\<lambda>t. t_id t \<noteq> h) (timers s) else timers s) \<and>
   (i \<in> set (bgOscillators s) \<and> i < length (nodes s) \<and> \<not> v_ended (nodes s ! i) \<and>
    \<not> stop_throws f i \<longrightarrow>
      v_end (nodes (snd (stopBgMusic f s)) ! i) = Some (currentTime s)) \<and>
   (i \<notin> set (bgOscillators s) \<and> v_wave (nodes s ! i) = WhiteNoise \<longrightarrow>
      nodes (snd (stopBgMusic f s)) ! i = nodes s ! i) \<and>
   bgOscillators (snd (stopBgMusic f s)) = [] \<and>
   \<not> bgPlaying (snd (stopBgMusic f s)) \<and>
   currentMusicType (snd (stopBgMusic f s)) = Null \<and>
   stopBgMusic g (snd (stopBgMusic f s)) = (Normal (), snd (stopBgMusic f s))"
proof -
  have 1: "v_end (nodes (snd (stopBgMusic f s)) ! i) = Some (currentTime s)"
    if "i \<in> set (bgOscillators s)" "i < length (nodes s)" "\<not> v_ended (nodes s ! i)"
      "\<not> stop_throws f i"
    unfolding stopBgMusic_nodes using that by (simp add: force_stop_all_stopped)
  have 2: "nodes (snd (stopBgMusic f s)) ! i = nodes s ! i" if "i \<notin> set (bgOscillators s)"
    unfolding stopBgMusic_nodes using that by (rule force_stop_all_untouched)
  show ?thesis
    using 1 2
    by (simp add: stopBgMusic_returns stopBgMusic_handle stopBgMusic_timers stopBgMusic_idem)
qed

lemma lobby_stopped_nodes:
  "nodes (snd (stopBgMusic no_faults (snd (startBgMusic no_faults (Some ''lobby'') init)))) =
     [\<lparr> v_wave = Triangle, v_freq = 130.81, v_vol = 0.04, v_ramp = None,
        v_start = Some 0, v_end = Some 0,
        v_onended = DropBg [0, 1], v_ended = False \<rparr>,
      \<lparr> v_wave = Triangle, v_freq = 130.81 * 2, v_vol = 0.04 * 0.4, v_ramp = None,
        v_start = Some 0, v_end = Some 0,
        v_onended = NoHandler, v_ended = False \<rparr>,
      \<lparr> v_wave = WhiteNoise, v_freq = 0, v_vol = 0.04 * 0.2, v_ramp = None,
        v_start = Some 0, v_end = Some 0.02,
        v_onended = NoHandler, v_ended = False \<rparr>]"
  unfolding stopBgMusic_nodes lobby_started
  by (simp add: force_stop_def amend_def no_faults_def currentTime_def init_def)

theorem stopBgMusic_stops_the_registry_witness:
  "0 \<in> set (bgOscillators (snd (startBgMusic no_faults (Some ''lobby'') init))) \<and>
   0 < length (nodes (snd (startBgMusic no_faults (Some ''lobby'') init))) \<and>
   \<not> v_ended (nodes (snd (startBgMusic no_faults (Some ''lobby'') init)) ! 0) \<and>
   \<not> stop_throws no_faults 0 \<and>
   2 \<notin> set (bgOscillators (snd (startBgMusic no_faults (Some ''lobby'') init))) \<and>
   v_wave (nodes (snd (startBgMusic no_faults (Some ''lobby'') init)) ! 2) = WhiteNoise \<and>
   v_end (nodes (snd (startBgMusic no_faults (Some ''lobby'') init)) ! 0) = Some 3 \<and>
   v_end (nodes (snd (stopBgMusic no_faults (snd (startBgMusic no_faults (Some ''lobby'') init)))) ! 0) =
     Some (currentTime (snd (startBgMusic no_faults (Some ''lobby'') init))) \<and>
   nodes (snd (stopBgMusic no_faults (snd (startBgMusic no_faults (Some ''lobby'') init)))) ! 2 =
     nodes (snd (startBgMusic no_faults (Some ''lobby'') init)) ! 2 \<and>
   timers (snd (startBgMusic no_faults (Some ''lobby'') init)) \<noteq> [] \<and>
   timers (snd (stopBgMusic no_faults (snd (startBgMusic no_faults (Some ''lobby'') init)))) = [] \<and>
   bgOscillators (snd (stopBgMusic no_faults (snd (startBgMusic no_faults (Some ''lobby'') init)))) = [] \<and>
   stopBgMusic no_faults (snd (stopBgMusic no_faults (snd (startBgMusic no_faults (Some ''lobby'') init)))) =
     (Normal (), snd (stopBgMusic no_faults (snd (startBgMusic no_faults (Some ''lobby'') init))))"
proof -
  let ?s = "snd (startBgMusic no_faults (Some ''lobby'') init)"
  have a: "0 \<in> set (bgOscillators ?s)" "0 < length (nodes ?s)" "\<not> v_ended (nodes ?s ! 0)"
    "2 \<notin> set (bgOscillators ?s)" "v_wave (nodes ?s ! 2) = WhiteNoise"
    "v_end (nodes ?s ! 0) = Some 3" "timers ?s \<noteq> []" "bgInterval ?s = Some 1"
    "timers ?s = [\<lparr> t_id = 1, t_cb = PlayNoteCb ''lobby'', t_period = 250, t_due = 250 \<rparr>]"
    unfolding lobby_started by simp_all
  have n: "\<not> stop_throws no_faults 0" by (simp add: no_faults_def)
  note t0 = stopBgMusic_stops_the_registry [of no_faults ?s 0 no_faults]
  note t2 = stopBgMusic_stops_the_registry [of no_faults ?s 2 no_faults]
  have w1: "v_end (nodes (snd (stopBgMusic no_faults ?s)) ! 0) = Some (currentTime ?s)"
    using a(1-3) n t0 by blast
  have w2: "nodes (snd (stopBgMusic no_faults ?s)) ! 2 = nodes ?s ! 2"
    using a(4,5) t2 by blast
  have w3: "timers (snd (stopBgMusic no_faults ?s)) = []"
    using t0 [THEN conjunct2, THEN conjunct2, THEN conjunct1] a(8,9) by simp
  have w4: "bgOscillators (snd (stopBgMusic no_faults ?s)) = []"
    "stopBgMusic no_faults (snd (stopBgMusic no_faults ?s)) = (Normal (), snd (stopBgMusic no_faults ?s))"
    using t0 by blast+
  show ?thesis
    using a(1-7) n w1 w2 w3 w4 by (intro conjI)
qed

text \<open>
  C2 as stated fails: \<open>stopBgMusic()\<close> right after \<open>startBgMusic('lobby')\<close> on a fresh engine
  does not stop the pluck-noise burst (node 2); it still ends at 0.02 s, with its buffer,
  not at \<open>currentTime\<close>.
\<close>

theorem stopBgMusic_noise_counterexample:
  "\<not> (v_end (nodes (snd (stopBgMusic no_faults (snd (startBgMusic no_faults (Some ''lobby'') init)))) ! 2) =
        Some (currentTime (snd (startBgMusic no_faults (Some ''lobby'') init))))"
proof -
  have a: "v_end (nodes (snd (stopBgMusic no_faults
              (snd (startBgMusic no_faults (Some ''lobby'') init)))) ! 2) = Some 0.02"
    unfolding lobby_stopped_nodes by simp
  have b: "currentTime (snd (startBgMusic no_faults (Some ''lobby'') init)) = 0"
    unfolding lobby_started by (simp add: currentTime_def init_def)
  show ?thesis unfolding a b by simp
qed

end
